theory Spec2Isabelle
  imports Main "HOL-Library.AList"
begin

section \<open>Raft consensus simulation: data model\<close>

text \<open>
  Embedding of \<^verbatim>\<open>src/learning/expert/distributed-system.js\<close> (classes
  \<^verbatim>\<open>LogEntry\<close>, \<^verbatim>\<open>PersistentState\<close>, \<^verbatim>\<open>RaftNode\<close>, \<^verbatim>\<open>RaftCluster\<close>,
  \<^verbatim>\<open>NetworkSimulator\<close>).

  Terms and indices are JavaScript numbers that only ever hold integers; they are \<open>int\<close>.
  A node id \<^verbatim>\<open>`node-${i}`\<close> is represented by the number \<open>i\<close>. A command is an opaque
  value, represented by its text. The field \<^verbatim>\<open>timestamp\<close> of a log entry
  (\<^verbatim>\<open>Date.now()\<close>) and the unused copy of the node id inside \<^verbatim>\<open>PersistentState\<close>
  are never read by the protocol logic and are left out. The three timing constants of the
  configuration are read by the timers only; they are the record \<open>Config\<close> of the section
  on timers and delays. An insertion-ordered \<^verbatim>\<open>Map\<close> is an association list with distinct keys
  (\<^verbatim>\<open>Map.set\<close> is \<open>AList.update\<close>: update in place, or append a new key), a \<^verbatim>\<open>Set\<close> is a
  duplicate-free list.
\<close>

type_synonym nodeId = nat

datatype NodeState = FOLLOWER | CANDIDATE | LEADER

record LogEntry =
  entryTerm :: int
  command :: string
  index :: int

text \<open>
  Messages, with the fields in the order of the source's object literals:
  \<^item> \<open>REQUEST_VOTE term candidateId lastLogIndex lastLogTerm\<close>
  \<^item> \<open>REQUEST_VOTE_RESPONSE term voteGranted\<close>
  \<^item> \<open>APPEND_ENTRIES term leaderId prevLogIndex prevLogTerm entries leaderCommit\<close>
  \<^item> \<open>APPEND_ENTRIES_RESPONSE term success matchIndex\<close>
  \<^item> \<open>CLIENT_REQUEST\<close>: declared in \<^verbatim>\<open>MessageType\<close>, never sent, ignored by \<^verbatim>\<open>handleMessage\<close>.
\<close>

datatype message =
    REQUEST_VOTE int nodeId int int
  | REQUEST_VOTE_RESPONSE int bool
  | APPEND_ENTRIES int nodeId int int "LogEntry list" int
  | APPEND_ENTRIES_RESPONSE int bool int
  | CLIENT_REQUEST

text \<open>
  What a node method does to the outside: a call of \<^verbatim>\<open>cluster.send\<close>, a call of
  \<^verbatim>\<open>cluster.broadcast\<close>, and \<^verbatim>\<open>emit('commandApplied', entry)\<close>. The applied event
  carries the value of \<^verbatim>\<open>lastApplied\<close> at which it fires and the entry read there
  (\<open>None\<close> for \<^verbatim>\<open>undefined\<close>).
\<close>

datatype effect =
    Send nodeId message
  | Broadcast message
  | CommandApplied int "LogEntry option"

text \<open>
  Exceptions. \<open>TypeError\<close>: reading \<^verbatim>\<open>.term\<close> or \<^verbatim>\<open>.command\<close> of \<^verbatim>\<open>undefined\<close>.
  \<open>NotTheLeader\<close> and \<open>NoLeaderElected\<close> are the two \<^verbatim>\<open>throw new Error(...)\<close> of the
  client interface. \<open>MissingPeer\<close> stands for \<^verbatim>\<open>nextIndex.get\<close> returning
  \<^verbatim>\<open>undefined\<close> (the source would continue with \<^verbatim>\<open>NaN\<close>; a Leader always has an
  entry for every peer, see \<open>becomeLeader\<close>).
\<close>

datatype error = TypeError | NotTheLeader | NoLeaderElected | MissingPeer

record PersistentState =
  currentTerm :: int
  votedFor :: "nodeId option"
  log :: "LogEntry list"

record Stats =
  messagesReceived :: int
  messagesSent :: int
  electionsStarted :: int
  electionsWon :: int
  commandsApplied :: int

text \<open>
  \<open>electionTimer\<close> and \<open>heartbeatTimer\<close> say whether the handle is non-null;
  \<open>electionTimerResets\<close> counts the calls of \<^verbatim>\<open>resetElectionTimer\<close> so that a reset of
  an already armed timer is visible. When a timer fires is decided by the scheduler of
  the cluster model below.
\<close>

record RaftNode =
  nodeId :: nodeId
  state :: PersistentState
  currentState :: NodeState
  commitIndex :: int
  lastApplied :: int
  nextIndex :: "(nodeId \<times> int) list"
  matchIndex :: "(nodeId \<times> int) list"
  electionTimer :: bool
  heartbeatTimer :: bool
  electionTimerResets :: nat
  stats :: Stats

section \<open>PersistentState\<close>

definition setTerm :: "PersistentState \<Rightarrow> int \<Rightarrow> PersistentState" where
  "setTerm ps t = ps\<lparr>currentTerm := t, votedFor := None\<rparr>"

definition vote :: "PersistentState \<Rightarrow> nodeId \<Rightarrow> PersistentState" where
  "vote ps candidateId = ps\<lparr>votedFor := Some candidateId\<rparr>"

definition appendEntry :: "PersistentState \<Rightarrow> LogEntry \<Rightarrow> PersistentState" where
  "appendEntry ps entry = ps\<lparr>log := log ps @ [entry]\<rparr>"

definition getLastLogIndex :: "PersistentState \<Rightarrow> int" where
  "getLastLogIndex ps = int (length (log ps)) - 1"

definition getLastLogTerm :: "PersistentState \<Rightarrow> int" where
  "getLastLogTerm ps = (if length (log ps) = 0 then 0 else entryTerm (last (log ps)))"

text \<open>\<^verbatim>\<open>this.log[index]\<close>: \<^verbatim>\<open>undefined\<close> outside \<open>0 .. length - 1\<close>.\<close>

definition getEntry :: "PersistentState \<Rightarrow> int \<Rightarrow> LogEntry option" where
  "getEntry ps i = (if 0 \<le> i \<and> i < int (length (log ps)) then Some (log ps ! nat i) else None)"

text \<open>
  \<^verbatim>\<open>Array.prototype.slice(0, end)\<close> and \<^verbatim>\<open>slice(start)\<close>: a negative argument counts
  from the end of the array.
\<close>

definition sliceTo :: "'a list \<Rightarrow> int \<Rightarrow> 'a list" where
  "sliceTo xs e = (if e < 0 then take (nat (int (length xs) + e)) xs else take (nat e) xs)"

definition sliceFrom :: "'a list \<Rightarrow> int \<Rightarrow> 'a list" where
  "sliceFrom xs s = (if s < 0 then drop (nat (int (length xs) + s)) xs else drop (nat s) xs)"

definition deleteEntriesFrom :: "PersistentState \<Rightarrow> int \<Rightarrow> PersistentState" where
  "deleteEntriesFrom ps i = ps\<lparr>log := sliceTo (log ps) i\<rparr>"

section \<open>RaftNode: timers and role changes\<close>

definition resetElectionTimer :: "RaftNode \<Rightarrow> RaftNode" where
  "resetElectionTimer n = n\<lparr>electionTimer := True, electionTimerResets := Suc (electionTimerResets n)\<rparr>"

definition stopElectionTimer :: "RaftNode \<Rightarrow> RaftNode" where
  "stopElectionTimer n = n\<lparr>electionTimer := False\<rparr>"

definition startHeartbeatTimer :: "RaftNode \<Rightarrow> RaftNode" where
  "startHeartbeatTimer n = n\<lparr>heartbeatTimer := True\<rparr>"

definition stopHeartbeatTimer :: "RaftNode \<Rightarrow> RaftNode" where
  "stopHeartbeatTimer n = n\<lparr>heartbeatTimer := False\<rparr>"

definition countSent :: "RaftNode \<Rightarrow> int \<Rightarrow> RaftNode" where
  "countSent n k = n\<lparr>stats := (stats n)\<lparr>messagesSent := messagesSent (stats n) + k\<rparr>\<rparr>"

definition becomeFollower :: "RaftNode \<Rightarrow> int \<Rightarrow> RaftNode" where
  "becomeFollower n t =
     resetElectionTimer (stopHeartbeatTimer
       (n\<lparr>currentState := FOLLOWER, state := setTerm (state n) t\<rparr>))"

text \<open>
  \<^verbatim>\<open>startElection\<close>. The locals \<^verbatim>\<open>votesReceived\<close> and \<^verbatim>\<open>votesNeeded\<close> of the source are
  computed and never read. \<open>nodeCount\<close> is \<^verbatim>\<open>this.cluster.getNodeCount()\<close>.
\<close>

definition startElection :: "RaftNode \<Rightarrow> int \<Rightarrow> RaftNode \<times> effect list" where
  "startElection n nodeCount =
     (let n1 = n\<lparr>stats := (stats n)\<lparr>electionsStarted := electionsStarted (stats n) + 1\<rparr>\<rparr>;
          n2 = n1\<lparr>currentState := CANDIDATE\<rparr>;
          n3 = n2\<lparr>state := vote (setTerm (state n2) (currentTerm (state n2) + 1)) (nodeId n2)\<rparr>;
          requestVoteMessage = REQUEST_VOTE (currentTerm (state n3)) (nodeId n3)
                                 (getLastLogIndex (state n3)) (getLastLogTerm (state n3))
      in (resetElectionTimer (countSent n3 (nodeCount - 1)), [Broadcast requestVoteMessage]))"

section \<open>RaftNode: RequestVote\<close>

definition respondVote :: "RaftNode \<Rightarrow> bool \<Rightarrow> nodeId \<Rightarrow> RaftNode \<times> effect list" where
  "respondVote n voteGranted senderId =
     (countSent n 1, [Send senderId (REQUEST_VOTE_RESPONSE (currentTerm (state n)) voteGranted)])"

definition candidateLogUpToDate :: "PersistentState \<Rightarrow> int \<Rightarrow> int \<Rightarrow> bool" where
  "candidateLogUpToDate ps lastLogIndex lastLogTerm \<longleftrightarrow>
     lastLogTerm > getLastLogTerm ps \<or>
     (lastLogTerm = getLastLogTerm ps \<and> lastLogIndex \<ge> getLastLogIndex ps)"

definition handleRequestVote ::
  "RaftNode \<Rightarrow> int \<Rightarrow> nodeId \<Rightarrow> int \<Rightarrow> int \<Rightarrow> nodeId \<Rightarrow> RaftNode \<times> effect list" where
  "handleRequestVote n mterm candidateId lastLogIndex lastLogTerm senderId =
     (if mterm < currentTerm (state n) then respondVote n False senderId
      else
        let n1 = (if mterm > currentTerm (state n) then becomeFollower n mterm else n);
            votedForNone = (votedFor (state n1) = None);
            votedForCandidate = (votedFor (state n1) = Some candidateId)
        in if (votedForNone \<or> votedForCandidate)
              \<and> candidateLogUpToDate (state n1) lastLogIndex lastLogTerm
           then respondVote
                  (resetElectionTimer (n1\<lparr>state := vote (state n1) candidateId\<rparr>)) True senderId
           else respondVote n1 False senderId)"

section \<open>RaftNode: state transition to Leader and heartbeats\<close>

text \<open>
  \<^verbatim>\<open>sendAppendEntries\<close>. Reading \<^verbatim>\<open>.term\<close> of a missing previous entry throws.
\<close>

definition sendAppendEntries :: "RaftNode \<Rightarrow> nodeId \<Rightarrow> error + RaftNode \<times> effect list" where
  "sendAppendEntries n followerId =
     (case map_of (nextIndex n) followerId of
        None \<Rightarrow> Inl MissingPeer
      | Some ni \<Rightarrow>
          let prevLogIndex = ni - 1;
              entries = sliceFrom (log (state n)) ni
          in if prevLogIndex \<ge> 0 then
               (case getEntry (state n) prevLogIndex of
                  None \<Rightarrow> Inl TypeError
                | Some e \<Rightarrow>
                    Inr (countSent n 1,
                      [Send followerId (APPEND_ENTRIES (currentTerm (state n)) (nodeId n)
                         prevLogIndex (entryTerm e) entries (commitIndex n))]))
             else
               Inr (countSent n 1,
                 [Send followerId (APPEND_ENTRIES (currentTerm (state n)) (nodeId n)
                    prevLogIndex 0 entries (commitIndex n))]))"

text \<open>The \<^verbatim>\<open>forEach\<close> over \<^verbatim>\<open>getAllNodeIds()\<close> that skips the node itself.\<close>

fun sendToPeers :: "RaftNode \<Rightarrow> nodeId list \<Rightarrow> error + RaftNode \<times> effect list" where
  "sendToPeers n [] = Inr (n, [])"
| "sendToPeers n (p # ps) =
     (if p \<noteq> nodeId n then
        (case sendAppendEntries n p of
           Inl e \<Rightarrow> Inl e
         | Inr r1 \<Rightarrow>
             (case sendToPeers (fst r1) ps of
                Inl e \<Rightarrow> Inl e
              | Inr r2 \<Rightarrow> Inr (fst r2, snd r1 @ snd r2)))
      else sendToPeers n ps)"

definition sendHeartbeats :: "RaftNode \<Rightarrow> nodeId list \<Rightarrow> error + RaftNode \<times> effect list" where
  "sendHeartbeats n allNodeIds =
     (if currentState n \<noteq> LEADER then Inr (n, []) else sendToPeers n allNodeIds)"

fun initLeaderState :: "RaftNode \<Rightarrow> nodeId list \<Rightarrow> RaftNode" where
  "initLeaderState n [] = n"
| "initLeaderState n (p # ps) =
     (if p \<noteq> nodeId n then
        initLeaderState
          (n\<lparr>nextIndex := AList.update p (int (length (log (state n)))) (nextIndex n),
             matchIndex := AList.update p (- 1) (matchIndex n)\<rparr>) ps
      else initLeaderState n ps)"

definition becomeLeader :: "RaftNode \<Rightarrow> nodeId list \<Rightarrow> error + RaftNode \<times> effect list" where
  "becomeLeader n allNodeIds =
     (let n1 = n\<lparr>stats := (stats n)\<lparr>electionsWon := electionsWon (stats n) + 1\<rparr>\<rparr>;
          n2 = stopElectionTimer (n1\<lparr>currentState := LEADER\<rparr>);
          n3 = initLeaderState n2 allNodeIds
      in case sendHeartbeats n3 allNodeIds of
           Inl e \<Rightarrow> Inl e
         | Inr r \<Rightarrow> Inr (startHeartbeatTimer (fst r), snd r))"

text \<open>
  \<^verbatim>\<open>handleRequestVoteResponse\<close>. \<open>votesReceived\<close> is
  \<^verbatim>\<open>this.cluster.countVotesReceived(this.nodeId)\<close> and \<open>nodeCount\<close> is
  \<^verbatim>\<open>this.cluster.getNodeCount()\<close>, both read from the cluster at the time of the call.
\<close>

definition handleRequestVoteResponse ::
  "RaftNode \<Rightarrow> int \<Rightarrow> bool \<Rightarrow> int \<Rightarrow> int \<Rightarrow> nodeId list \<Rightarrow> error + RaftNode \<times> effect list" where
  "handleRequestVoteResponse n mterm voteGranted votesReceived nodeCount allNodeIds =
     (if currentState n \<noteq> CANDIDATE then Inr (n, [])
      else if mterm > currentTerm (state n) then Inr (becomeFollower n mterm, [])
      else if mterm = currentTerm (state n) \<and> voteGranted then
        (let votesNeeded = nodeCount div 2 + 1
         in if votesReceived \<ge> votesNeeded then becomeLeader n allNodeIds else Inr (n, []))
      else Inr (n, []))"

section \<open>RaftNode: log replication\<close>

text \<open>The \<^verbatim>\<open>while\<close> loop of \<^verbatim>\<open>applyCommittedEntries\<close>.\<close>

function applyCommittedEntries :: "RaftNode \<Rightarrow> RaftNode \<times> effect list" where
  "applyCommittedEntries n =
     (if lastApplied n < commitIndex n then
        (let r = applyCommittedEntries
                   (n\<lparr>lastApplied := lastApplied n + 1,
                      stats := (stats n)\<lparr>commandsApplied := commandsApplied (stats n) + 1\<rparr>\<rparr>)
         in (fst r, CommandApplied (lastApplied n + 1) (getEntry (state n) (lastApplied n + 1)) # snd r))
      else (n, []))"
  by pat_completeness auto
termination
  by (relation "measure (\<lambda>n. nat (commitIndex n - lastApplied n))") auto

declare applyCommittedEntries.simps [simp del]

text \<open>The consistency check of \<^verbatim>\<open>handleAppendEntries\<close>, with JavaScript's short-circuit order.\<close>

definition consistencyCheck :: "PersistentState \<Rightarrow> int \<Rightarrow> int \<Rightarrow> error + bool" where
  "consistencyCheck ps prevLogIndex prevLogTerm =
     (if prevLogIndex = - 1 then Inr True
      else if prevLogIndex < int (length (log ps)) then
        (case getEntry ps prevLogIndex of
           None \<Rightarrow> Inl TypeError
         | Some e \<Rightarrow> Inr (entryTerm e = prevLogTerm))
      else Inr False)"

text \<open>The \<^verbatim>\<open>for (const entry of entries)\<close> loop of \<^verbatim>\<open>handleAppendEntries\<close>.\<close>

fun appendEntries :: "PersistentState \<Rightarrow> int \<Rightarrow> LogEntry list \<Rightarrow> error + PersistentState" where
  "appendEntries ps logIndex [] = Inr ps"
| "appendEntries ps logIndex (entry # entries) =
     (if logIndex < int (length (log ps)) then
        (case getEntry ps logIndex of
           None \<Rightarrow> Inl TypeError
         | Some x \<Rightarrow>
             if entryTerm x \<noteq> entryTerm entry
             then appendEntries (appendEntry (deleteEntriesFrom ps logIndex) entry) (logIndex + 1) entries
             else appendEntries ps (logIndex + 1) entries)
      else appendEntries (appendEntry ps entry) (logIndex + 1) entries)"

definition respondAppend ::
  "RaftNode \<Rightarrow> bool \<Rightarrow> int \<Rightarrow> LogEntry list \<Rightarrow> nodeId \<Rightarrow> effect list \<Rightarrow> RaftNode \<times> effect list" where
  "respondAppend n success prevLogIndex entries senderId applied =
     (countSent n 1,
      applied @ [Send senderId (APPEND_ENTRIES_RESPONSE (currentTerm (state n)) success
         (if success then prevLogIndex + int (length entries) else - 1))])"

text \<open>
  \<^verbatim>\<open>handleAppendEntries\<close>, in three parts: what the receiver does on contact from a
  leader whose term is not stale (lines 347 to 355 of the source), the update of the commit
  index (lines 379 to 382), and the handler itself.
\<close>

definition leaderContact :: "RaftNode \<Rightarrow> int \<Rightarrow> RaftNode" where
  "leaderContact n mterm =
     (let n1 = (if mterm > currentTerm (state n) then becomeFollower n mterm else n);
          n2 = (if currentState n1 = CANDIDATE then becomeFollower n1 mterm else n1)
      in resetElectionTimer n2)"

definition followerCommit :: "RaftNode \<Rightarrow> int \<Rightarrow> RaftNode \<times> effect list" where
  "followerCommit n leaderCommit =
     (if leaderCommit > commitIndex n
      then applyCommittedEntries (n\<lparr>commitIndex := min leaderCommit (getLastLogIndex (state n))\<rparr>)
      else (n, []))"

definition handleAppendEntries ::
  "RaftNode \<Rightarrow> int \<Rightarrow> nodeId \<Rightarrow> int \<Rightarrow> int \<Rightarrow> LogEntry list \<Rightarrow> int \<Rightarrow> nodeId
     \<Rightarrow> error + RaftNode \<times> effect list" where
  "handleAppendEntries n mterm leaderId prevLogIndex prevLogTerm entries leaderCommit senderId =
     (if mterm < currentTerm (state n)
      then Inr (respondAppend n False prevLogIndex entries senderId [])
      else
        let n3 = leaderContact n mterm
        in case consistencyCheck (state n3) prevLogIndex prevLogTerm of
             Inl e \<Rightarrow> Inl e
           | Inr False \<Rightarrow> Inr (respondAppend n3 False prevLogIndex entries senderId [])
           | Inr True \<Rightarrow>
               (case appendEntries (state n3) (prevLogIndex + 1) entries of
                  Inl e \<Rightarrow> Inl e
                | Inr ps \<Rightarrow>
                    let r = followerCommit (n3\<lparr>state := ps\<rparr>) leaderCommit
                    in Inr (respondAppend (fst r) True prevLogIndex entries senderId (snd r))))"

text \<open>
  \<^verbatim>\<open>updateCommitIndex\<close>: the match indices and the node's own last index, sorted in
  descending order (\<^verbatim>\<open>indices.sort((a, b) => b - a)\<close>), the element at position
  \<open>\<lfloor>length / 2\<rfloor>\<close>.
\<close>

definition majorityIndex :: "RaftNode \<Rightarrow> int" where
  "majorityIndex n =
     (let indices = map snd (matchIndex n) @ [getLastLogIndex (state n)];
          sorted = rev (sort indices)
      in sorted ! (length sorted div 2))"

definition updateCommitIndex :: "RaftNode \<Rightarrow> error + RaftNode \<times> effect list" where
  "updateCommitIndex n =
     (if majorityIndex n > commitIndex n then
        (case getEntry (state n) (majorityIndex n) of
           None \<Rightarrow> Inl TypeError
         | Some e \<Rightarrow>
             if entryTerm e = currentTerm (state n)
             then Inr (applyCommittedEntries (n\<lparr>commitIndex := majorityIndex n\<rparr>))
             else Inr (n, []))
      else Inr (n, []))"

definition handleAppendEntriesResponse ::
  "RaftNode \<Rightarrow> int \<Rightarrow> bool \<Rightarrow> int \<Rightarrow> nodeId \<Rightarrow> error + RaftNode \<times> effect list" where
  "handleAppendEntriesResponse n mterm success mIndex senderId =
     (if currentState n \<noteq> LEADER then Inr (n, [])
      else if mterm > currentTerm (state n) then Inr (becomeFollower n mterm, [])
      else if mterm = currentTerm (state n) then
        (if success then
           updateCommitIndex
             (n\<lparr>nextIndex := AList.update senderId (mIndex + 1) (nextIndex n),
                matchIndex := AList.update senderId mIndex (matchIndex n)\<rparr>)
         else
           (case map_of (nextIndex n) senderId of
              None \<Rightarrow> Inl MissingPeer
            | Some ni \<Rightarrow>
                sendAppendEntries
                  (n\<lparr>nextIndex := AList.update senderId (max 0 (ni - 1)) (nextIndex n)\<rparr>) senderId))
      else Inr (n, []))"

section \<open>RaftNode: client interface and dispatch\<close>

text \<open>
  The synchronous part of \<^verbatim>\<open>submitCommand\<close>: the check of the role and the append. The
  result is the new node and the index of the entry; the returned promise resolves later,
  once \<^verbatim>\<open>lastApplied\<close> has reached that index.
\<close>

definition submitCommand :: "RaftNode \<Rightarrow> string \<Rightarrow> error + RaftNode \<times> int" where
  "submitCommand n cmd =
     (if currentState n \<noteq> LEADER then Inl NotTheLeader
      else
        let entry = \<lparr>entryTerm = currentTerm (state n), command = cmd,
                     index = int (length (log (state n)))\<rparr>
        in Inr (n\<lparr>state := appendEntry (state n) entry\<rparr>, index entry))"

definition handleMessage ::
  "RaftNode \<Rightarrow> message \<Rightarrow> nodeId \<Rightarrow> int \<Rightarrow> int \<Rightarrow> nodeId list \<Rightarrow> error + RaftNode \<times> effect list" where
  "handleMessage n msg senderId votesReceived nodeCount allNodeIds =
     (let n1 = n\<lparr>stats := (stats n)\<lparr>messagesReceived := messagesReceived (stats n) + 1\<rparr>\<rparr>
      in case msg of
           REQUEST_VOTE mterm candidateId lastLogIndex lastLogTerm \<Rightarrow>
             Inr (handleRequestVote n1 mterm candidateId lastLogIndex lastLogTerm senderId)
         | REQUEST_VOTE_RESPONSE mterm voteGranted \<Rightarrow>
             handleRequestVoteResponse n1 mterm voteGranted votesReceived nodeCount allNodeIds
         | APPEND_ENTRIES mterm leaderId prevLogIndex prevLogTerm entries leaderCommit \<Rightarrow>
             handleAppendEntries n1 mterm leaderId prevLogIndex prevLogTerm entries leaderCommit senderId
         | APPEND_ENTRIES_RESPONSE mterm success mIndex \<Rightarrow>
             handleAppendEntriesResponse n1 mterm success mIndex senderId
         | CLIENT_REQUEST \<Rightarrow> Inr (n1, []))"

section \<open>RaftCluster and NetworkSimulator\<close>

text \<open>
  \<open>nodes\<close> is the \<^verbatim>\<open>Map\<close> from node id to node in insertion order, \<open>votes\<close> the
  \<^verbatim>\<open>Map\<close> from candidate id to the \<^verbatim>\<open>Set\<close> of voter ids, \<open>network\<close> the callbacks
  that \<^verbatim>\<open>NetworkSimulator.send\<close> has scheduled with \<^verbatim>\<open>setTimeout\<close> and that have
  not run yet: sender, receiver, message.
\<close>

record RaftCluster =
  nodes :: "RaftNode list"
  votes :: "(nodeId \<times> nodeId list) list"
  network :: "(nodeId \<times> nodeId \<times> message) list"

definition newRaftNode :: "nodeId \<Rightarrow> RaftNode" where
  "newRaftNode i =
     resetElectionTimer
       \<lparr>nodeId = i,
        state = \<lparr>currentTerm = 0, votedFor = None, log = []\<rparr>,
        currentState = FOLLOWER, commitIndex = - 1, lastApplied = - 1,
        nextIndex = [], matchIndex = [],
        electionTimer = False, heartbeatTimer = False, electionTimerResets = 0,
        stats = \<lparr>messagesReceived = 0, messagesSent = 0, electionsStarted = 0,
                 electionsWon = 0, commandsApplied = 0\<rparr>\<rparr>"

definition newRaftCluster :: "nat \<Rightarrow> RaftCluster" where
  "newRaftCluster nodeCount = \<lparr>nodes = map newRaftNode [0..<nodeCount], votes = [], network = []\<rparr>"

definition getNode :: "RaftCluster \<Rightarrow> nodeId \<Rightarrow> RaftNode option" where
  "getNode c i = find (\<lambda>n. nodeId n = i) (nodes c)"

definition setNode :: "RaftCluster \<Rightarrow> RaftNode \<Rightarrow> RaftCluster" where
  "setNode c n = c\<lparr>nodes := map (\<lambda>m. if nodeId m = nodeId n then n else m) (nodes c)\<rparr>"

definition getAllNodeIds :: "RaftCluster \<Rightarrow> nodeId list" where
  "getAllNodeIds c = map nodeId (nodes c)"

definition getNodeCount :: "RaftCluster \<Rightarrow> int" where
  "getNodeCount c = int (length (nodes c))"

definition countVotesReceived :: "RaftCluster \<Rightarrow> nodeId \<Rightarrow> int" where
  "countVotesReceived c i = (case map_of (votes c) i of None \<Rightarrow> 0 | Some s \<Rightarrow> int (length s))"

definition getLeader :: "RaftCluster \<Rightarrow> RaftNode option" where
  "getLeader c = find (\<lambda>n. currentState n = LEADER) (nodes c)"

definition addVoter :: "nodeId \<Rightarrow> nodeId list \<Rightarrow> nodeId list" where
  "addVoter v s = (if v \<in> set s then s else s @ [v])"

text \<open>
  \<^verbatim>\<open>RaftCluster.send\<close>: the delivery is scheduled, and a granted vote response is added
  to the tally of its addressee at once.
\<close>

definition send :: "RaftCluster \<Rightarrow> nodeId \<Rightarrow> nodeId \<Rightarrow> message \<Rightarrow> RaftCluster" where
  "send c fromId toId msg =
     (let c1 = c\<lparr>network := network c @ [(fromId, toId, msg)]\<rparr>
      in case msg of
           REQUEST_VOTE_RESPONSE mterm voteGranted \<Rightarrow>
             if voteGranted then
               c1\<lparr>votes := AList.update toId
                              (addVoter fromId (case map_of (votes c1) toId of None \<Rightarrow> [] | Some s \<Rightarrow> s))
                              (votes c1)\<rparr>
             else c1
         | _ \<Rightarrow> c1)"

fun sendEach :: "RaftCluster \<Rightarrow> nodeId \<Rightarrow> nodeId list \<Rightarrow> message \<Rightarrow> RaftCluster" where
  "sendEach c fromId [] msg = c"
| "sendEach c fromId (i # ids) msg =
     (if i \<noteq> fromId then sendEach (send c fromId i msg) fromId ids msg
      else sendEach c fromId ids msg)"

definition broadcast :: "RaftCluster \<Rightarrow> nodeId \<Rightarrow> message \<Rightarrow> RaftCluster" where
  "broadcast c fromId msg =
     (let c1 = (case msg of
                  REQUEST_VOTE mterm candidateId lastLogIndex lastLogTerm \<Rightarrow>
                    c\<lparr>votes := AList.update fromId [fromId] (votes c)\<rparr>
                | _ \<Rightarrow> c)
      in sendEach c1 fromId (getAllNodeIds c1) msg)"

text \<open>
  The effects of a node method, carried out on the cluster in the order in which the
  method produced them. The listener that the cluster registers on every node reads
  \<^verbatim>\<open>entry.command\<close>, which throws for \<^verbatim>\<open>undefined\<close>.
\<close>

fun perform :: "RaftCluster \<Rightarrow> nodeId \<Rightarrow> effect list \<Rightarrow> error + RaftCluster" where
  "perform c i [] = Inr c"
| "perform c i (Send toId msg # es) = perform (send c i toId msg) i es"
| "perform c i (Broadcast msg # es) = perform (broadcast c i msg) i es"
| "perform c i (CommandApplied k entry # es) =
     (case entry of None \<Rightarrow> Inl TypeError | Some e \<Rightarrow> perform c i es)"

text \<open>\<^verbatim>\<open>RaftCluster.submitCommand\<close>, synchronous part (see \<open>submitCommand\<close>).\<close>

definition clusterSubmitCommand :: "RaftCluster \<Rightarrow> string \<Rightarrow> error + RaftCluster \<times> int" where
  "clusterSubmitCommand c cmd =
     (case getLeader c of
        None \<Rightarrow> Inl NoLeaderElected
      | Some leader \<Rightarrow>
          (case submitCommand leader cmd of
             Inl e \<Rightarrow> Inl e
           | Inr r \<Rightarrow> Inr (setNode c (fst r), snd r)))"

section \<open>Executions of the cluster\<close>

text \<open>
  The JavaScript event loop runs one callback at a time. The callbacks of this program
  are: an election timer firing (\<^verbatim>\<open>startElection\<close>), a heartbeat interval firing
  (\<^verbatim>\<open>sendHeartbeats\<close>), a scheduled delivery running (\<^verbatim>\<open>handleMessage\<close> on the
  receiver), and a client calling \<^verbatim>\<open>cluster.submitCommand\<close>. The delays are random
  (\<^verbatim>\<open>Math.random()\<close>), so the order of the callbacks is left to the schedule:
  \<open>Deliver from to k\<close> runs the \<open>k\<close>-th oldest pending delivery from \<open>from\<close> to \<open>to\<close>.
  \<open>step\<close> is \<open>None\<close> when the event cannot happen (timer not armed, no such delivery
  pending), \<open>Some (Inl e)\<close> when the callback throws. The times at which the callbacks
  can run are the subject of the next section.
\<close>

datatype event =
    ElectionTimeout nodeId
  | HeartbeatTick nodeId
  | Deliver nodeId nodeId nat
  | ClientSubmit string

fun pick :: "(nodeId \<times> nodeId \<times> message) list \<Rightarrow> nodeId \<Rightarrow> nodeId \<Rightarrow> nat
               \<Rightarrow> (message \<times> (nodeId \<times> nodeId \<times> message) list) option" where
  "pick [] f t k = None"
| "pick (p # ps) f t k =
     (if fst p = f \<and> fst (snd p) = t then
        (case k of
           0 \<Rightarrow> Some (snd (snd p), ps)
         | Suc j \<Rightarrow> (case pick ps f t j of None \<Rightarrow> None | Some r \<Rightarrow> Some (fst r, p # snd r)))
      else (case pick ps f t k of None \<Rightarrow> None | Some r \<Rightarrow> Some (fst r, p # snd r)))"

definition step :: "RaftCluster \<Rightarrow> event \<Rightarrow> (error + RaftCluster) option" where
  "step c ev =
     (case ev of
        ElectionTimeout i \<Rightarrow>
          (case getNode c i of
             None \<Rightarrow> None
           | Some n \<Rightarrow>
               if electionTimer n then
                 (let r = startElection n (getNodeCount c)
                  in Some (perform (setNode c (fst r)) i (snd r)))
               else None)
      | HeartbeatTick i \<Rightarrow>
          (case getNode c i of
             None \<Rightarrow> None
           | Some n \<Rightarrow>
               if heartbeatTimer n then
                 (case sendHeartbeats n (getAllNodeIds c) of
                    Inl e \<Rightarrow> Some (Inl e)
                  | Inr r \<Rightarrow> Some (perform (setNode c (fst r)) i (snd r)))
               else None)
      | Deliver fromId toId k \<Rightarrow>
          (case pick (network c) fromId toId k of
             None \<Rightarrow> None
           | Some d \<Rightarrow>
               (let c1 = c\<lparr>network := snd d\<rparr>
                in case getNode c1 toId of
                     None \<Rightarrow> Some (Inr c1)
                   | Some n \<Rightarrow>
                       (case handleMessage n (fst d) fromId (countVotesReceived c1 toId)
                               (getNodeCount c1) (getAllNodeIds c1) of
                          Inl e \<Rightarrow> Some (Inl e)
                        | Inr r \<Rightarrow> Some (perform (setNode c1 (fst r)) toId (snd r)))))
      | ClientSubmit cmd \<Rightarrow>
          (case clusterSubmitCommand c cmd of
             Inl e \<Rightarrow> Some (Inl e)
           | Inr r \<Rightarrow> Some (Inr (fst r))))"

fun run :: "RaftCluster \<Rightarrow> event list \<Rightarrow> (error + RaftCluster) option" where
  "run c [] = Some (Inr c)"
| "run c (ev # evs) =
     (case step c ev of
        None \<Rightarrow> None
      | Some (Inl e) \<Rightarrow> Some (Inl e)
      | Some (Inr c1) \<Rightarrow> run c1 evs)"

text \<open>The Leaders of a term.\<close>

definition leadersOf :: "RaftCluster \<Rightarrow> int \<Rightarrow> nodeId list" where
  "leadersOf c t =
     map nodeId (filter (\<lambda>n. currentState n = LEADER \<and> currentTerm (state n) = t) (nodes c))"

section \<open>Timers and delays\<close>

text \<open>
  The configuration of \<^verbatim>\<open>new RaftCluster(nodeCount, config)\<close>, in milliseconds. The
  source fills in 150, 300, 50 and 10 for fields that are missing.

  The program schedules its callbacks in three places. \<^verbatim>\<open>resetElectionTimer\<close> clears
  the timer of the node and arms \<^verbatim>\<open>setTimeout\<close> with
  \<^verbatim>\<open>electionTimeoutMin + Math.random() * (electionTimeoutMax - electionTimeoutMin)\<close>;
  \<^verbatim>\<open>startHeartbeatTimer\<close> arms \<^verbatim>\<open>setInterval\<close> with \<^verbatim>\<open>heartbeatInterval\<close>;
  \<^verbatim>\<open>NetworkSimulator.send\<close> arms \<^verbatim>\<open>setTimeout\<close> with
  \<^verbatim>\<open>delay + Math.random() * delay\<close> and drops nothing. \<^verbatim>\<open>Math.random()\<close> lies in
  \<open>[0, 1)\<close>. So an election timer fires at least \<open>electionTimeoutMin\<close> and less than
  \<open>electionTimeoutMax\<close> after the call that armed it, unless it is cleared or armed
  again before; the heartbeats of a Leader run every \<open>heartbeatInterval\<close> from
  \<^verbatim>\<open>becomeLeader\<close> until \<^verbatim>\<open>stopHeartbeatTimer\<close>; and every message is delivered at
  least \<open>networkDelay\<close> and less than \<open>2 * networkDelay\<close> after it was sent.
\<close>

record Config =
  electionTimeoutMin :: int
  electionTimeoutMax :: int
  heartbeatInterval :: int
  networkDelay :: int

text \<open>
  A cluster with a clock: the time of the last callback, the time at which each pending
  delivery was sent (in the order of \<open>network\<close>, to which \<open>send\<close> appends), and for every
  node the time at which its election timer was last armed and the time of its next
  heartbeat. All nodes are created, and their election timers armed, at time 0.
\<close>

record TimedCluster =
  cluster :: RaftCluster
  clock :: int
  sentAt :: "int list"
  armedAt :: "(nodeId \<times> int) list"
  tickAt :: "(nodeId \<times> int) list"

definition newTimedCluster :: "nat \<Rightarrow> TimedCluster" where
  "newTimedCluster nodeCount =
     \<lparr>cluster = newRaftCluster nodeCount, clock = 0, sentAt = [],
      armedAt = map (\<lambda>i. (i, 0)) [0..<nodeCount], tickAt = map (\<lambda>i. (i, 0)) [0..<nodeCount]\<rparr>"

definition timeOf :: "(nodeId \<times> int) list \<Rightarrow> nodeId \<Rightarrow> int" where
  "timeOf ts i = (case map_of ts i of None \<Rightarrow> 0 | Some t \<Rightarrow> t)"

text \<open>The position in \<open>network\<close> of the delivery that \<open>pick\<close> takes out.\<close>

fun pickIndex :: "(nodeId \<times> nodeId \<times> message) list \<Rightarrow> nodeId \<Rightarrow> nodeId \<Rightarrow> nat \<Rightarrow> nat option" where
  "pickIndex [] f t k = None"
| "pickIndex (p # ps) f t k =
     (if fst p = f \<and> fst (snd p) = t then
        (case k of 0 \<Rightarrow> Some 0 | Suc j \<Rightarrow> map_option Suc (pickIndex ps f t j))
      else map_option Suc (pickIndex ps f t k))"

text \<open>
  At time \<open>t\<close> something is overdue if a pending delivery has been under way for twice the
  network delay, an armed election timer has been armed for the maximal timeout, or a
  heartbeat should have run before \<open>t\<close>.
\<close>

definition overdue :: "Config \<Rightarrow> TimedCluster \<Rightarrow> int \<Rightarrow> bool" where
  "overdue cfg tc t \<longleftrightarrow>
     list_ex (\<lambda>s. s + 2 * networkDelay cfg \<le> t) (sentAt tc)
     \<or> list_ex (\<lambda>n. electionTimer n \<and> timeOf (armedAt tc) (nodeId n) + electionTimeoutMax cfg \<le> t)
          (nodes (cluster tc))
     \<or> list_ex (\<lambda>n. heartbeatTimer n \<and> timeOf (tickAt tc) (nodeId n) < t) (nodes (cluster tc))"

text \<open>
  A callback is due at time \<open>t\<close>: the election timer has been armed for the minimal
  timeout, the heartbeat interval has elapsed, the delivery has been under way for the
  network delay. A client may call at any time.
\<close>

definition due :: "Config \<Rightarrow> TimedCluster \<Rightarrow> int \<Rightarrow> event \<Rightarrow> bool" where
  "due cfg tc t ev =
     (case ev of
        ElectionTimeout i \<Rightarrow> timeOf (armedAt tc) i + electionTimeoutMin cfg \<le> t
      | HeartbeatTick i \<Rightarrow> timeOf (tickAt tc) i = t
      | Deliver fromId toId k \<Rightarrow>
          (case pickIndex (network (cluster tc)) fromId toId k of
             None \<Rightarrow> False
           | Some p \<Rightarrow> p < length (sentAt tc) \<and> sentAt tc ! p + networkDelay cfg \<le> t)
      | ClientSubmit cmd \<Rightarrow> True)"

text \<open>
  What a callback did to the timers of a node, read off the node before (in cluster \<open>c\<close>)
  and after: \<^verbatim>\<open>resetElectionTimer\<close> was called, the heartbeat interval was started.
\<close>

definition rearmed :: "RaftCluster \<Rightarrow> RaftNode \<Rightarrow> bool" where
  "rearmed c n' = (case getNode c (nodeId n') of
                     None \<Rightarrow> True
                   | Some n \<Rightarrow> electionTimerResets n' \<noteq> electionTimerResets n)"

definition started :: "RaftCluster \<Rightarrow> RaftNode \<Rightarrow> bool" where
  "started c n' = (case getNode c (nodeId n') of
                     None \<Rightarrow> heartbeatTimer n'
                   | Some n \<Rightarrow> heartbeatTimer n' \<and> \<not> heartbeatTimer n)"

text \<open>
  The clock after the callback \<open>ev\<close> has run at time \<open>t\<close> and has led to the cluster
  \<open>c'\<close>: the delivery that ran is no longer pending, the messages that the callback sent
  were sent at \<open>t\<close>, a timer that the callback armed was armed at \<open>t\<close>, and the next
  heartbeat of a node whose interval fired or was started is one interval after \<open>t\<close>.
\<close>

definition advance :: "Config \<Rightarrow> TimedCluster \<Rightarrow> int \<Rightarrow> event \<Rightarrow> RaftCluster \<Rightarrow> TimedCluster" where
  "advance cfg tc t ev c' =
     (let kept = (case ev of
                    Deliver fromId toId k \<Rightarrow>
                      (case pickIndex (network (cluster tc)) fromId toId k of
                         None \<Rightarrow> sentAt tc
                       | Some p \<Rightarrow> take p (sentAt tc) @ drop (Suc p) (sentAt tc))
                  | _ \<Rightarrow> sentAt tc)
      in \<lparr>cluster = c', clock = t,
          sentAt = kept @ replicate (length (network c') - length kept) t,
          armedAt = map (\<lambda>n'. (nodeId n', if rearmed (cluster tc) n' then t
                                           else timeOf (armedAt tc) (nodeId n'))) (nodes c'),
          tickAt = map (\<lambda>n'. (nodeId n', if ev = HeartbeatTick (nodeId n') then t + heartbeatInterval cfg
                                          else if started (cluster tc) n' then t + heartbeatInterval cfg
                                          else timeOf (tickAt tc) (nodeId n'))) (nodes c')\<rparr>)"

text \<open>
  One callback at its time: time does not run backwards, nothing is overdue, the callback
  is due, and \<open>step\<close> runs it. A timed execution is a list of callbacks with their times;
  \<open>timedRun\<close> is \<open>None\<close> if the timers and the network of the source cannot produce it.
\<close>

definition timedStep :: "Config \<Rightarrow> TimedCluster \<Rightarrow> int \<times> event \<Rightarrow> (error + TimedCluster) option" where
  "timedStep cfg tc te =
     (if clock tc \<le> fst te \<and> \<not> overdue cfg tc (fst te) \<and> due cfg tc (fst te) (snd te) then
        (case step (cluster tc) (snd te) of
           None \<Rightarrow> None
         | Some (Inl e) \<Rightarrow> Some (Inl e)
         | Some (Inr c') \<Rightarrow> Some (Inr (advance cfg tc (fst te) (snd te) c')))
      else None)"

fun timedRun :: "Config \<Rightarrow> TimedCluster \<Rightarrow> (int \<times> event) list \<Rightarrow> (error + TimedCluster) option" where
  "timedRun cfg tc [] = Some (Inr tc)"
| "timedRun cfg tc (te # tes) =
     (case timedStep cfg tc te of
        None \<Rightarrow> None
      | Some (Inl e) \<Rightarrow> Some (Inl e)
      | Some (Inr tc1) \<Rightarrow> timedRun cfg tc1 tes)"

text \<open>
  How long the deliveries and the election timeouts of a timed execution took: for every
  delivery the time since it was sent, for every election timeout the time since the
  timer was armed.
\<close>

fun spans :: "Config \<Rightarrow> TimedCluster \<Rightarrow> (int \<times> event) list \<Rightarrow> (int list \<times> int list) option" where
  "spans cfg tc [] = Some ([], [])"
| "spans cfg tc (te # tes) =
     (case timedStep cfg tc te of
        Some (Inr tc1) \<Rightarrow>
          (case spans cfg tc1 tes of
             None \<Rightarrow> None
           | Some r \<Rightarrow>
               (case snd te of
                  Deliver fromId toId k \<Rightarrow>
                    (case pickIndex (network (cluster tc)) fromId toId k of
                       None \<Rightarrow> None
                     | Some p \<Rightarrow> Some ((fst te - sentAt tc ! p) # fst r, snd r))
                | ElectionTimeout i \<Rightarrow> Some (fst r, (fst te - timeOf (armedAt tc) i) # snd r)
                | _ \<Rightarrow> Some r))
      | _ \<Rightarrow> None)"

section \<open>Statements of the specification\<close>

text \<open>
  The grant condition of RequestVote in the specification's words: the requester's term
  is at least the receiver's, the receiver has not voted for a different candidate in the
  term it is in after adopting the requester's, and the candidate's log is at least as
  up to date (last term first, last index on a tie).
\<close>

definition specGrantCondition :: "RaftNode \<Rightarrow> int \<Rightarrow> nodeId \<Rightarrow> int \<Rightarrow> int \<Rightarrow> bool" where
  "specGrantCondition n mterm candidateId lastLogIndex lastLogTerm \<longleftrightarrow>
     mterm \<ge> currentTerm (state n)
     \<and> (mterm > currentTerm (state n) \<or> votedFor (state n) = None \<or> votedFor (state n) = Some candidateId)
     \<and> (lastLogTerm > getLastLogTerm (state n)
        \<or> (lastLogTerm = getLastLogTerm (state n) \<and> lastLogIndex \<ge> getLastLogIndex (state n)))"

text \<open>
  The failure of the consistency check in the specification's words: the receiver's log
  has no entry at \<open>prevLogIndex\<close>, or the entry there has a different term.
\<close>

definition specConsistencyFails :: "PersistentState \<Rightarrow> int \<Rightarrow> int \<Rightarrow> bool" where
  "specConsistencyFails ps prevLogIndex prevLogTerm \<longleftrightarrow>
     (case getEntry ps prevLogIndex of None \<Rightarrow> True | Some e \<Rightarrow> entryTerm e \<noteq> prevLogTerm)"

text \<open>A cluster of two nodes in which the second node is Leader.\<close>

definition leaderOfTwo :: RaftCluster where
  "leaderOfTwo = \<lparr>nodes = [newRaftNode 0, (newRaftNode 1)\<lparr>currentState := LEADER\<rparr>],
                   votes = [], network = []\<rparr>"

section \<open>The life of one node\<close>

text \<open>
  The methods of a node that the cluster, the timers and a client call, with the values
  they read from the cluster as arguments, and a node's run through a list of such calls.
  \<open>appliedIndices\<close> lists the indices of the \<^verbatim>\<open>commandApplied\<close> events of a run in the
  order in which they fired.
\<close>

datatype nodeCall =
    StartElection int
  | SendHeartbeats "nodeId list"
  | HandleMessage message nodeId int int "nodeId list"
  | SubmitCommand string

definition callNode :: "RaftNode \<Rightarrow> nodeCall \<Rightarrow> error + RaftNode \<times> effect list" where
  "callNode n c =
     (case c of
        StartElection nodeCount \<Rightarrow> Inr (startElection n nodeCount)
      | SendHeartbeats allNodeIds \<Rightarrow> sendHeartbeats n allNodeIds
      | HandleMessage msg senderId votesReceived nodeCount allNodeIds \<Rightarrow>
          handleMessage n msg senderId votesReceived nodeCount allNodeIds
      | SubmitCommand cmd \<Rightarrow>
          (case submitCommand n cmd of Inl e \<Rightarrow> Inl e | Inr r \<Rightarrow> Inr (fst r, [])))"


fun appliedIndices :: "effect list \<Rightarrow> int list" where
  "appliedIndices [] = []"
| "appliedIndices (CommandApplied i entry # es) = i # appliedIndices es"
| "appliedIndices (e # es) = appliedIndices es"


definition advances :: "RaftNode \<Rightarrow> RaftNode \<times> effect list \<Rightarrow> bool" where
  "advances n r \<longleftrightarrow>
     appliedIndices (snd r) = [lastApplied n + 1 .. lastApplied (fst r)]
     \<and> lastApplied n \<le> lastApplied (fst r)
     \<and> (commitIndex n \<le> lastApplied n \<longrightarrow> commitIndex (fst r) \<le> lastApplied (fst r))"


text \<open>A Leader of three nodes in term 1: one entry, replicated to the first peer.\<close>

definition leaderOfThree :: RaftNode where
  "leaderOfThree =
     (newRaftNode 0)\<lparr>state := \<lparr>currentTerm = 1, votedFor = Some 0,
                               log = [\<lparr>entryTerm = 1, command = ''a'', index = 0\<rparr>]\<rparr>,
                     currentState := LEADER,
                     nextIndex := [(1, 1), (2, 0)], matchIndex := [(1, 0), (2, - 1)]\<rparr>"

section \<open>Executions of a cluster of five nodes\<close>

text \<open>
  \<open>staleVoteSchedule\<close> is an execution of \<^verbatim>\<open>new RaftCluster(5, {networkDelay: 100})\<close>:
  every delivery takes between 100 and 200 ms, every election timeout between 150 and
  300 ms, and every delivery below is the oldest pending one of its channel. In
  milliseconds after the creation of the cluster, line by line of the definition:
  \<^item> 150, 151: nodes 0 and 3 time out and request votes for term 1.
  \<^item> 250, 251: the requests of term 1 arrive. Nodes 1, 2 and 4 grant node 0; the other
    five requests are denied.
  \<^item> 300, 301: nodes 0 and 3 time out again and request votes for term 2.
  \<^item> 350 to 399: the eight responses of term 1 arrive and are ignored by the two
    candidates, which are in term 2.
  \<^item> 400, 401: the requests of term 2 reach nodes 4, 3 and 0. Node 4 grants node 0.
  \<^item> 450, 451: nodes 0 and 3 time out a third time and request votes for term 3;
    \<^verbatim>\<open>broadcast\<close> resets the tally of node 0 to \<open>{0}\<close>.
  \<^item> 460, 461: the requests of term 2 from node 0 reach nodes 1 and 2 only now. Both
    grant, in term 2, and \<^verbatim>\<open>send\<close> adds both to the tally of node 0. At 470 the
    requests of term 2 from node 3 reach nodes 1 and 2 and are denied.
  \<^item> 500 to 549: the four responses sent at 400 and 401 arrive and are ignored.
  \<^item> 550, 551: the request of term 3 from node 0 reaches node 1, which grants; the
    requests of term 3 from node 3 reach nodes 2 and 4, which grant.
  \<^item> 560: the other five requests of term 3 arrive and are denied.
  \<^item> 600: the four responses sent at 460 to 470 arrive and are ignored (term 2).
  \<^item> 650: the granted response of node 1 for term 3 reaches node 0.
  No node other than 0 and 3 times out: node 1 resets its timer at 250, 460 and 550,
  node 2 at 250, 461 and 551, node 4 at 250, 400 and 551.

  \<open>twoLeadersSchedule\<close> continues at 651 with the granted response of node 2 for term 3
  reaching node 3.
\<close>

definition staleVoteSchedule :: "event list" where
  "staleVoteSchedule =
     [ElectionTimeout 0, ElectionTimeout 3,
      Deliver 0 1 0, Deliver 0 2 0, Deliver 0 4 0, Deliver 0 3 0,
      Deliver 3 1 0, Deliver 3 2 0, Deliver 3 4 0, Deliver 3 0 0,
      ElectionTimeout 0, ElectionTimeout 3,
      Deliver 1 0 0, Deliver 2 0 0, Deliver 4 0 0, Deliver 3 0 0,
      Deliver 1 3 0, Deliver 2 3 0, Deliver 4 3 0, Deliver 0 3 0,
      Deliver 0 4 0, Deliver 0 3 0, Deliver 3 0 0, Deliver 3 4 0,
      ElectionTimeout 0, ElectionTimeout 3,
      Deliver 0 1 0, Deliver 0 2 0, Deliver 3 1 0, Deliver 3 2 0,
      Deliver 4 0 0, Deliver 3 0 0, Deliver 0 3 0, Deliver 4 3 0,
      Deliver 0 1 0, Deliver 3 2 0, Deliver 3 4 0,
      Deliver 0 2 0, Deliver 0 4 0, Deliver 0 3 0, Deliver 3 1 0, Deliver 3 0 0,
      Deliver 1 0 0, Deliver 2 3 0, Deliver 2 0 0, Deliver 1 3 0,
      Deliver 1 0 0]"

definition twoLeadersSchedule :: "event list" where
  "twoLeadersSchedule = staleVoteSchedule @ [Deliver 2 3 0]"

text \<open>
  The times of \<open>twoLeadersSchedule\<close> as listed above, and the configuration
  \<^verbatim>\<open>{networkDelay: 100}\<close>.
\<close>

definition delay100 :: Config where
  "delay100 = \<lparr>electionTimeoutMin = 150, electionTimeoutMax = 300, heartbeatInterval = 50,
                networkDelay = 100\<rparr>"

definition twoLeadersTimes :: "int list" where
  "twoLeadersTimes =
     [150, 151,
      250, 250, 250, 250, 251, 251, 251, 251,
      300, 301,
      350, 350, 350, 350, 351, 351, 351, 351,
      400, 400, 401, 401,
      450, 451,
      460, 461, 470, 470,
      500, 500, 501, 501,
      550, 551, 551,
      560, 560, 560, 560, 560,
      600, 600, 600, 600,
      650, 651]"

text \<open>
  \<open>lostEntriesSchedule\<close> is an execution of
  \<^verbatim>\<open>new RaftCluster(5, {heartbeatInterval: 100, networkDelay: 100})\<close> in which
  \<^verbatim>\<open>cluster.submitCommand\<close> is called nine times, the first four times without waiting
  for the result. Every callback stands with the millisecond at which it runs, no two in
  the same millisecond. Every delivery takes between 101 and 198 ms, every election
  timeout between 151 and 298 ms, the heartbeats of a Leader are 100 ms apart, and no
  message is left out: what is pending at the end was sent less than 200 ms before.
  \<^item> 151, 161, 298: nodes 0, 2 and 1 time out and request votes for term 1. Nodes 3 and 4
    grant node 0 at 252 and 253, and node 0 becomes Leader of term 1 at 353.
  \<^item> 360 to 363: \<open>a\<close>, \<open>b\<close>, \<open>c\<close> and \<open>d\<close> are submitted and go to node 0.
  \<^item> 454: the first heartbeat of node 0 reaches node 2, a Candidate of term 1, which
    becomes Follower; \<^verbatim>\<open>setTerm\<close> clears its vote.
  \<^item> 479: node 1 times out again and requests votes for term 2; \<^verbatim>\<open>broadcast\<close>
    resets its tally to \<open>{1}\<close>.
  \<^item> 489: the request of term 1 from node 1, sent at 298, reaches node 2, which grants
    in term 1: the tally of node 1 is \<open>{1, 2}\<close>.
  \<^item> 554, 555: the heartbeat of node 0 sent at 453, with \<open>a\<close> to \<open>d\<close>, reaches nodes 2
    and 3. Their responses reach node 0 at 658 and 659: node 0 commits and applies
    index 3.
  \<^item> 580: the request of term 2 from node 1 reaches node 4, whose log is empty, and node 4
    grants: the tally is \<open>{1, 2, 4}\<close>. At 677 the request reaches node 0, which steps
    down. At 681 the response of node 4 makes node 1 Leader of term 2, with an empty log.
  \<^item> 690: \<open>x\<close> is submitted and goes to node 1. The heartbeat of 781 carries \<open>x\<close> with
    \<open>prevLogIndex = -1\<close>; at 882, 883 and 884 nodes 0, 2 and 3 replace \<open>a\<close> to \<open>d\<close> by
    \<open>x\<close>. Node 0 keeps commit index 3.
  \<^item> 1033: node 0, which heard from node 1 at 882 and then not before 1079, times out and
    requests votes for term 3. All four nodes grant, and node 0 is Leader of term 3 at
    1235. At 1245 and 1246 \<open>y\<close> and \<open>z\<close> are submitted and go to node 0.
  \<^item> 1285: node 1, whose timer was armed at 1134, times out and requests votes for
    term 4. Node 0 steps down at 1386, nodes 2 and 4 grant at 1387 and 1388.
  \<^item> 1438: the heartbeat of node 0 sent at 1335, with \<open>y\<close>, \<open>z\<close> and
    \<open>leaderCommit = 3\<close>, reaches node 3, which is still in term 3: its log is \<open>x\<close>, \<open>y\<close>,
    \<open>z\<close> and its commit index 2. The request of node 1 reaches node 3 at 1483.
  \<^item> 1488: node 1 is Leader of term 4 with the log \<open>x\<close>. At 1500 \<open>w\<close> is submitted and
    goes to node 1. The heartbeat of 1588 carries \<open>w\<close> with \<open>prevLogIndex = 0\<close>; at 1689
    and 1691 nodes 0 and 3 replace \<open>y\<close> and \<open>z\<close> by \<open>w\<close>. Node 0 has commit index 3
    and last index 1, node 3 has commit index 2 and last index 1.
  \<^item> 1840: node 0, which heard from node 1 at 1689 and then not before 1886, times out
    and requests votes for term 5. At 1900 \<open>v\<close> is submitted and goes to node 1, still
    Leader of term 4: its log is \<open>x\<close>, \<open>w\<close>, \<open>v\<close>. From 1941 to 1944 node 1 steps down
    and denies, nodes 2, 3 and 4 grant. At 2043 node 0 is Leader of term 5 and sends its
    first heartbeat: \<open>prevLogIndex = 1\<close>, \<open>prevLogTerm = 4\<close>, no entries,
    \<open>leaderCommit = 3\<close>.
  \<^item> 2143: the second heartbeat of node 0. The heartbeats of 2043 are under way.
  Only the election of term 2 counts a vote of another term; the elections of terms 3, 4
  and 5 are won with grants of their own term.
\<close>

definition heartbeat100 :: Config where
  "heartbeat100 = \<lparr>electionTimeoutMin = 150, electionTimeoutMax = 300, heartbeatInterval = 100,
                    networkDelay = 100\<rparr>"

definition lostEntriesSchedule :: "(int \<times> event) list" where
  "lostEntriesSchedule =
     [(151, ElectionTimeout 0), (161, ElectionTimeout 2), (252, Deliver 0 3 0),
      (253, Deliver 0 4 0), (262, Deliver 2 0 0), (263, Deliver 2 3 0), (264, Deliver 2 4 0),
      (298, ElectionTimeout 1), (331, Deliver 0 2 0), (346, Deliver 0 1 0),
      (347, Deliver 2 1 0), (353, Deliver 3 0 0), (354, Deliver 4 0 0),
      (360, ClientSubmit ''a''), (361, ClientSubmit ''b''), (362, ClientSubmit ''c''),
      (363, ClientSubmit ''d''), (364, Deliver 0 2 0), (365, Deliver 3 2 0),
      (366, Deliver 4 2 0), (399, Deliver 1 0 0), (400, Deliver 1 3 0), (401, Deliver 1 4 0),
      (432, Deliver 2 0 0), (447, Deliver 1 0 0), (448, Deliver 1 2 1), (453, HeartbeatTick 0),
      (454, Deliver 0 2 0), (455, Deliver 0 3 0), (456, Deliver 0 4 0),
      (479, ElectionTimeout 1), (489, Deliver 1 2 0), (500, Deliver 0 1 1),
      (501, Deliver 3 1 0), (502, Deliver 4 1 0), (551, Deliver 0 1 0), (553, HeartbeatTick 0),
      (554, Deliver 0 2 0), (555, Deliver 0 3 0), (556, Deliver 2 0 0), (557, Deliver 3 0 0),
      (558, Deliver 4 0 0), (580, Deliver 1 4 0), (590, Deliver 2 1 0), (603, Deliver 0 4 0),
      (604, Deliver 0 1 0), (629, Deliver 1 2 0), (630, Deliver 1 3 0), (653, HeartbeatTick 0),
      (654, Deliver 0 1 0), (655, Deliver 0 2 0), (656, Deliver 0 3 0), (657, Deliver 0 4 0),
      (658, Deliver 2 0 0), (659, Deliver 3 0 0), (677, Deliver 1 0 0), (681, Deliver 4 1 0),
      (690, ClientSubmit ''x''), (704, Deliver 4 0 0), (705, Deliver 1 0 1),
      (730, Deliver 2 1 0), (731, Deliver 3 1 0), (749, Deliver 1 0 0), (754, Deliver 0 1 0),
      (755, Deliver 0 2 0), (756, Deliver 0 3 0), (757, Deliver 0 4 0), (758, Deliver 1 0 0),
      (759, Deliver 2 0 0), (760, Deliver 3 0 0), (761, Deliver 4 0 0), (778, Deliver 0 1 0),
      (781, HeartbeatTick 1), (782, Deliver 1 0 0), (783, Deliver 1 2 0), (784, Deliver 1 3 0),
      (785, Deliver 1 4 0), (855, Deliver 1 0 0), (856, Deliver 2 0 0), (857, Deliver 3 0 0),
      (858, Deliver 4 0 0), (881, HeartbeatTick 1), (882, Deliver 1 0 0), (883, Deliver 1 2 0),
      (884, Deliver 1 3 0), (885, Deliver 1 4 0), (886, Deliver 0 1 0), (887, Deliver 2 1 0),
      (888, Deliver 3 1 0), (889, Deliver 4 1 0), (981, HeartbeatTick 1), (982, Deliver 1 2 0),
      (983, Deliver 1 3 0), (984, Deliver 1 4 0), (985, Deliver 0 1 0), (986, Deliver 2 1 0),
      (987, Deliver 3 1 0), (988, Deliver 4 1 0), (1033, ElectionTimeout 0),
      (1079, Deliver 1 0 0), (1081, HeartbeatTick 1), (1082, Deliver 1 0 0),
      (1083, Deliver 1 2 0), (1084, Deliver 1 3 0), (1085, Deliver 1 4 0),
      (1086, Deliver 2 1 0), (1087, Deliver 3 1 0), (1088, Deliver 4 1 0),
      (1134, Deliver 0 1 0), (1135, Deliver 0 2 0), (1136, Deliver 0 3 0),
      (1137, Deliver 0 4 0), (1180, Deliver 0 1 0), (1182, Deliver 1 0 0),
      (1183, Deliver 1 2 0), (1184, Deliver 1 3 0), (1185, Deliver 1 4 0),
      (1186, Deliver 0 1 0), (1187, Deliver 2 1 0), (1188, Deliver 3 1 0),
      (1189, Deliver 4 1 0), (1235, Deliver 1 0 0), (1236, Deliver 2 0 0),
      (1237, Deliver 3 0 0), (1238, Deliver 4 0 0), (1245, ClientSubmit ''y''),
      (1246, ClientSubmit ''z''), (1283, Deliver 0 1 0), (1284, Deliver 2 1 0),
      (1285, ElectionTimeout 1), (1286, Deliver 3 1 0), (1287, Deliver 4 1 0),
      (1335, HeartbeatTick 0), (1336, Deliver 0 1 0), (1337, Deliver 0 2 0),
      (1338, Deliver 0 3 0), (1339, Deliver 0 4 0), (1386, Deliver 1 0 0),
      (1387, Deliver 1 2 0), (1388, Deliver 1 4 0), (1436, Deliver 0 1 0),
      (1437, Deliver 0 2 0), (1438, Deliver 0 3 0), (1439, Deliver 0 4 0),
      (1440, Deliver 1 0 0), (1441, Deliver 2 0 0), (1442, Deliver 3 0 0),
      (1443, Deliver 4 0 0), (1483, Deliver 1 3 0), (1487, Deliver 0 1 0),
      (1488, Deliver 2 1 0), (1489, Deliver 4 1 0), (1500, ClientSubmit ''w''),
      (1537, Deliver 1 0 0), (1538, Deliver 2 0 0), (1539, Deliver 3 0 0),
      (1540, Deliver 4 0 0), (1584, Deliver 3 1 0), (1588, HeartbeatTick 1),
      (1589, Deliver 1 0 0), (1590, Deliver 1 2 0), (1591, Deliver 1 3 0),
      (1592, Deliver 1 4 0), (1688, HeartbeatTick 1), (1689, Deliver 1 0 0),
      (1690, Deliver 1 2 0), (1691, Deliver 1 3 0), (1692, Deliver 1 4 0),
      (1693, Deliver 0 1 0), (1694, Deliver 2 1 0), (1695, Deliver 3 1 0),
      (1696, Deliver 4 1 0), (1788, HeartbeatTick 1), (1789, Deliver 1 2 0),
      (1790, Deliver 1 3 0), (1791, Deliver 1 4 0), (1792, Deliver 0 1 0),
      (1793, Deliver 2 1 0), (1794, Deliver 3 1 0), (1795, Deliver 4 1 0),
      (1840, ElectionTimeout 0), (1886, Deliver 1 0 0), (1888, HeartbeatTick 1),
      (1889, Deliver 1 0 0), (1890, Deliver 1 2 0), (1891, Deliver 1 3 0),
      (1892, Deliver 1 4 0), (1893, Deliver 2 1 0), (1894, Deliver 3 1 0),
      (1895, Deliver 4 1 0), (1900, ClientSubmit ''v''), (1941, Deliver 0 1 0),
      (1942, Deliver 0 2 0), (1943, Deliver 0 3 0), (1944, Deliver 0 4 0),
      (1987, Deliver 0 1 0), (1989, Deliver 1 0 0), (1990, Deliver 1 2 0),
      (1991, Deliver 1 3 0), (1992, Deliver 1 4 0), (1993, Deliver 0 1 0),
      (1994, Deliver 2 1 0), (1995, Deliver 3 1 0), (1996, Deliver 4 1 0),
      (2042, Deliver 1 0 0), (2043, Deliver 2 0 0), (2044, Deliver 3 0 0),
      (2045, Deliver 4 0 0), (2090, Deliver 0 1 0), (2091, Deliver 2 1 0),
      (2092, Deliver 3 1 0), (2093, Deliver 4 1 0), (2143, HeartbeatTick 0)]"

text \<open>
  What the theorems read off a state: role, term and vote of every node; commit index,
  \<open>lastApplied\<close> and the terms of the log of every node; the commands in the log of every
  node; the pending deliveries to a node.
\<close>

definition roles :: "RaftCluster \<Rightarrow> (NodeState \<times> int \<times> nodeId option) list" where
  "roles c = map (\<lambda>n. (currentState n, currentTerm (state n), votedFor (state n))) (nodes c)"

definition progress :: "RaftCluster \<Rightarrow> (int \<times> int \<times> int list) list" where
  "progress c = map (\<lambda>n. (commitIndex n, lastApplied n, map entryTerm (log (state n)))) (nodes c)"

definition commands :: "RaftCluster \<Rightarrow> string list list" where
  "commands c = map (\<lambda>n. map command (log (state n))) (nodes c)"

definition pendingTo :: "RaftCluster \<Rightarrow> nodeId \<Rightarrow> (nodeId \<times> message) list" where
  "pendingTo c i = map (\<lambda>p. (fst p, snd (snd p))) (filter (\<lambda>p. fst (snd p) = i) (network c))"

text \<open>
  The acceptance of entries in the specification's words. \<open>agreeing lg start entries\<close> is
  the number of leading incoming entries that find an existing entry of the same term at
  their index (the first incoming entry belongs at index \<open>start\<close>). If all of them do,
  the log stays as it is; otherwise the log is cut at the index of the first incoming
  entry that does not (a conflict, or the end of the log) and that entry and all after it
  are appended.
\<close>

definition agreeing :: "LogEntry list \<Rightarrow> nat \<Rightarrow> LogEntry list \<Rightarrow> nat" where
  "agreeing lg start entries =
     length (takeWhile (\<lambda>p. entryTerm (fst p) = entryTerm (snd p)) (zip (drop start lg) entries))"

definition specAppend :: "LogEntry list \<Rightarrow> nat \<Rightarrow> LogEntry list \<Rightarrow> LogEntry list" where
  "specAppend lg start entries =
     (if agreeing lg start entries = length entries then lg
      else take (start + agreeing lg start entries) lg @ drop (agreeing lg start entries) entries)"

section \<open>Basic facts\<close>

lemmas node_defs = setTerm_def vote_def appendEntry_def getLastLogIndex_def getLastLogTerm_def
  getEntry_def resetElectionTimer_def stopElectionTimer_def startHeartbeatTimer_def
  stopHeartbeatTimer_def countSent_def becomeFollower_def respondVote_def respondAppend_def

lemma consistencyCheck_fails:
  "0 \<le> prevLogIndex \<Longrightarrow> specConsistencyFails ps prevLogIndex prevLogTerm
     \<Longrightarrow> consistencyCheck ps prevLogIndex prevLogTerm = Inr False"
  by (auto simp: consistencyCheck_def specConsistencyFails_def getEntry_def split: option.splits)

lemma leaderContact_frame:
  "log (state (leaderContact n t)) = log (state n)
   \<and> commitIndex (leaderContact n t) = commitIndex n
   \<and> lastApplied (leaderContact n t) = lastApplied n"
  by (simp add: leaderContact_def Let_def node_defs)

lemma specConsistencyFails_cong_log:
  "log ps = log ps' \<Longrightarrow> specConsistencyFails ps i t = specConsistencyFails ps' i t"
  by (simp add: specConsistencyFails_def getEntry_def)

section \<open>RequestVote\<close>

text \<open>
  C3. \<^verbatim>\<open>handleRequestVote\<close> answers with exactly one vote response, and the vote is
  granted if and only if the requester's term is at least the receiver's current term,
  the receiver has not voted for a different candidate in that term (a strictly greater
  term is adopted first, which clears the vote and makes the receiver a Follower), and the
  candidate's log is at least as up to date: a greater last term wins, the last index
  breaks a tie. On a grant the vote is recorded and the election timer is reset. Without
  a grant the recorded vote is the one the receiver had (none after adopting a new term).
\<close>

theorem handleRequestVote_grant:
  "snd (handleRequestVote n mterm candidateId lastLogIndex lastLogTerm senderId)
     = [Send senderId (REQUEST_VOTE_RESPONSE
          (currentTerm (state (fst (handleRequestVote n mterm candidateId lastLogIndex lastLogTerm senderId))))
          (specGrantCondition n mterm candidateId lastLogIndex lastLogTerm))]
   \<and> (mterm > currentTerm (state n) \<longrightarrow>
        currentTerm (state (fst (handleRequestVote n mterm candidateId lastLogIndex lastLogTerm senderId))) = mterm
        \<and> currentState (fst (handleRequestVote n mterm candidateId lastLogIndex lastLogTerm senderId)) = FOLLOWER)
   \<and> (mterm \<le> currentTerm (state n) \<longrightarrow>
        currentTerm (state (fst (handleRequestVote n mterm candidateId lastLogIndex lastLogTerm senderId)))
          = currentTerm (state n)
        \<and> currentState (fst (handleRequestVote n mterm candidateId lastLogIndex lastLogTerm senderId))
          = currentState n)
   \<and> (specGrantCondition n mterm candidateId lastLogIndex lastLogTerm \<longrightarrow>
        votedFor (state (fst (handleRequestVote n mterm candidateId lastLogIndex lastLogTerm senderId)))
          = Some candidateId
        \<and> electionTimer (fst (handleRequestVote n mterm candidateId lastLogIndex lastLogTerm senderId))
        \<and> electionTimerResets (fst (handleRequestVote n mterm candidateId lastLogIndex lastLogTerm senderId))
          > electionTimerResets n)
   \<and> (\<not> specGrantCondition n mterm candidateId lastLogIndex lastLogTerm \<longrightarrow>
        votedFor (state (fst (handleRequestVote n mterm candidateId lastLogIndex lastLogTerm senderId)))
          = (if mterm > currentTerm (state n) then None else votedFor (state n)))"
proof -
  consider (stale) "mterm < currentTerm (state n)"
    | (same) "mterm = currentTerm (state n)"
    | (newer) "mterm > currentTerm (state n)"
    by linarith
  then show ?thesis
  proof cases
    case stale
    then show ?thesis
      by (simp add: handleRequestVote_def specGrantCondition_def node_defs)
  next
    case same
    then show ?thesis
      by (simp add: handleRequestVote_def specGrantCondition_def candidateLogUpToDate_def
            node_defs Let_def)
  next
    case newer
    then show ?thesis
      by (simp add: handleRequestVote_def specGrantCondition_def candidateLogUpToDate_def
            node_defs Let_def)
  qed
qed

theorem handleRequestVote_grant_witness:
  "snd (handleRequestVote (newRaftNode 1) 1 0 (- 1) 0 0) = [Send 0 (REQUEST_VOTE_RESPONSE 1 True)]
   \<and> specGrantCondition (newRaftNode 1) 1 0 (- 1) 0
   \<and> (1::int) > currentTerm (state (newRaftNode 1))
   \<and> votedFor (state (fst (handleRequestVote (newRaftNode 1) 1 0 (- 1) 0 0))) = Some 0
   \<and> currentState (fst (handleRequestVote (newRaftNode 1) 1 0 (- 1) 0 0)) = FOLLOWER
   \<and> \<not> specGrantCondition (newRaftNode 1) 0 0 (- 2) 0
   \<and> (0::int) \<le> currentTerm (state (newRaftNode 1))
   \<and> snd (handleRequestVote (newRaftNode 1) 0 0 (- 2) 0 0) = [Send 0 (REQUEST_VOTE_RESPONSE 0 False)]
   \<and> votedFor (state (fst (handleRequestVote (newRaftNode 1) 0 0 (- 2) 0 0))) = None"
  using handleRequestVote_grant [of "newRaftNode 1" 1 0 "- 1" 0 0]
        handleRequestVote_grant [of "newRaftNode 1" 0 0 "- 2" 0 0]
  by (simp add: specGrantCondition_def newRaftNode_def node_defs)

section \<open>AppendEntries: rejection\<close>

text \<open>
  C10. A message whose term is strictly less than the receiver's current term is answered
  with \<open>success = false\<close> and \<open>matchIndex = -1\<close>, carrying the receiver's term, and the
  receiver is left as it was except for its counter of sent messages: term, vote, log,
  commit index, role and both timers (with the count of timer resets) are unchanged.
\<close>

theorem handleAppendEntries_stale_term_frame:
  assumes "mterm < currentTerm (state n)"
  shows "handleAppendEntries n mterm leaderId prevLogIndex prevLogTerm entries leaderCommit senderId
       = Inr (n\<lparr>stats := (stats n)\<lparr>messagesSent := messagesSent (stats n) + 1\<rparr>\<rparr>,
              [Send senderId (APPEND_ENTRIES_RESPONSE (currentTerm (state n)) False (- 1))])"
  using assms by (simp add: handleAppendEntries_def respondAppend_def countSent_def)

theorem handleAppendEntries_stale_term_frame_witness:
  "handleAppendEntries ((newRaftNode 1)\<lparr>state := \<lparr>currentTerm = 2, votedFor = Some 0, log = []\<rparr>\<rparr>)
       1 0 (- 1) 0 [] (- 1) 0
     = Inr ((newRaftNode 1)\<lparr>state := \<lparr>currentTerm = 2, votedFor = Some 0, log = []\<rparr>,
               stats := \<lparr>messagesReceived = 0, messagesSent = 1, electionsStarted = 0,
                          electionsWon = 0, commandsApplied = 0\<rparr>\<rparr>,
            [Send 0 (APPEND_ENTRIES_RESPONSE 2 False (- 1))])"
  using handleAppendEntries_stale_term_frame
          [of 1 "(newRaftNode 1)\<lparr>state := \<lparr>currentTerm = 2, votedFor = Some 0, log = []\<rparr>\<rparr>"
              0 "- 1" 0 "[]" "- 1" 0]
  by (simp add: newRaftNode_def resetElectionTimer_def)

text \<open>
  C4, as the claim states it, fails at the sentinel \<open>prevLogIndex = -1\<close>: the log of a new
  node has no entry at index \<open>-1\<close>, and an AppendEntries message with that
  \<open>prevLogIndex\<close> is accepted and its entry appended. The source tests
  \<^verbatim>\<open>prevLogIndex === -1\<close> first.
\<close>

theorem handleAppendEntries_sentinel_counterexample:
  "specConsistencyFails (state (newRaftNode 1)) (- 1) 0
   \<and> map_sum id snd
       (handleAppendEntries (newRaftNode 1) 1 0 (- 1) 0 [\<lparr>entryTerm = 1, command = ''x'', index = 0\<rparr>] (- 1) 0)
     = Inr [Send 0 (APPEND_ENTRIES_RESPONSE 1 True 0)]
   \<and> map_sum id (\<lambda>r. log (state (fst r)))
       (handleAppendEntries (newRaftNode 1) 1 0 (- 1) 0 [\<lparr>entryTerm = 1, command = ''x'', index = 0\<rparr>] (- 1) 0)
     = Inr [\<lparr>entryTerm = 1, command = ''x'', index = 0\<rparr>]"
  by (simp add: specConsistencyFails_def handleAppendEntries_def consistencyCheck_def
        leaderContact_def followerCommit_def newRaftNode_def node_defs Let_def)

text \<open>
  C4, amended. \<^verbatim>\<open>handleAppendEntries\<close> answers \<open>success = false\<close> (with
  \<open>matchIndex = -1\<close>) when the term of the message is less than the receiver's current
  term, and also when \<open>prevLogIndex\<close> is at least 0 and the receiver's log has no entry
  there or the entry there has a different term. In both cases the log, the commit index
  and \<open>lastApplied\<close> are unchanged.
\<close>

theorem handleAppendEntries_rejection:
  "(mterm < currentTerm (state n) \<or>
    (0 \<le> prevLogIndex \<and> specConsistencyFails (state n) prevLogIndex prevLogTerm))
   \<longrightarrow> (\<exists>n'. handleAppendEntries n mterm leaderId prevLogIndex prevLogTerm entries leaderCommit senderId
              = Inr (n', [Send senderId (APPEND_ENTRIES_RESPONSE (currentTerm (state n')) False (- 1))])
            \<and> log (state n') = log (state n)
            \<and> commitIndex n' = commitIndex n \<and> lastApplied n' = lastApplied n)"
proof (intro impI)
  assume h: "mterm < currentTerm (state n) \<or>
    (0 \<le> prevLogIndex \<and> specConsistencyFails (state n) prevLogIndex prevLogTerm)"
  show "\<exists>n'. handleAppendEntries n mterm leaderId prevLogIndex prevLogTerm entries leaderCommit senderId
              = Inr (n', [Send senderId (APPEND_ENTRIES_RESPONSE (currentTerm (state n')) False (- 1))])
            \<and> log (state n') = log (state n)
            \<and> commitIndex n' = commitIndex n \<and> lastApplied n' = lastApplied n"
  proof (cases "mterm < currentTerm (state n)")
    case True
    then show ?thesis
      by (simp add: handleAppendEntries_def respondAppend_def countSent_def)
  next
    case False
    with h have p: "0 \<le> prevLogIndex" and f: "specConsistencyFails (state n) prevLogIndex prevLogTerm"
      by auto
    have "specConsistencyFails (state (leaderContact n mterm)) prevLogIndex prevLogTerm"
      using f specConsistencyFails_cong_log [of "state (leaderContact n mterm)" "state n"]
      by (simp add: leaderContact_frame)
    then have chk: "consistencyCheck (state (leaderContact n mterm)) prevLogIndex prevLogTerm = Inr False"
      using p by (rule consistencyCheck_fails [rotated])
    have "handleAppendEntries n mterm leaderId prevLogIndex prevLogTerm entries leaderCommit senderId
            = Inr (respondAppend (leaderContact n mterm) False prevLogIndex entries senderId [])"
      using False chk by (simp add: handleAppendEntries_def Let_def)
    then show ?thesis
      by (simp add: respondAppend_def countSent_def leaderContact_frame)
  qed
qed

theorem handleAppendEntries_rejection_witness:
  "0 \<le> (0::int) \<and> specConsistencyFails (state (newRaftNode 1)) 0 1
   \<and> (\<exists>n'. handleAppendEntries (newRaftNode 1) 1 0 0 1 [] (- 1) 0
              = Inr (n', [Send 0 (APPEND_ENTRIES_RESPONSE (currentTerm (state n')) False (- 1))])
            \<and> log (state n') = log (state (newRaftNode 1))
            \<and> commitIndex n' = commitIndex (newRaftNode 1)
            \<and> lastApplied n' = lastApplied (newRaftNode 1))"
  using handleAppendEntries_rejection [of 1 "newRaftNode 1" 0 1 0 "[]" "- 1" 0]
  by (simp add: specConsistencyFails_def getEntry_def newRaftNode_def resetElectionTimer_def)

section \<open>AppendEntries: acceptance\<close>

text \<open>
  C5. The claim sets the commit index to the minimum of \<open>leaderCommit\<close> and the index of
  the last new entry, \<open>prevLogIndex + length entries\<close>. The source takes the minimum with
  the receiver's own last log index. At the end of \<open>lostEntriesSchedule\<close> node 1 holds
  \<open>x\<close>, \<open>w\<close>, \<open>v\<close> with commit index 1, and \<open>v\<close> is in no other log. The first
  heartbeat of node 0 in term 5 (\<open>prevLogIndex = 1\<close>, no entries, \<open>leaderCommit = 3\<close>),
  delivered to node 1 at 2145, moves the commit index of node 1 to 2 and applies \<open>v\<close>;
  the index of the last new entry is 1. (Each triple is commit index, \<open>lastApplied\<close> and
  the terms of the log.) The rest of the claim holds, and the two minima agree for every
  message whose \<open>leaderCommit\<close> is at most the index of its last entry: see
  \<open>handleAppendEntries_acceptance\<close> and \<open>handleAppendEntries_commit_within_message\<close>
  below.
\<close>

theorem commitIndex_beyond_last_new_entry:
  "map_option (map_sum id (\<lambda>tc. (commands (cluster tc), progress (cluster tc), pendingTo (cluster tc) 1)))
     (timedRun heartbeat100 (newTimedCluster 5) lostEntriesSchedule)
     = Some (Inr ([[''x'', ''w''], [''x'', ''w'', ''v''], [''x'', ''w''], [''x'', ''w''], [''x'', ''w'']],
                  [(3, 3, [2, 4]), (1, 1, [2, 4, 4]), (0, 0, [2, 4]), (2, 2, [2, 4]), (0, 0, [2, 4])],
                  [(0, APPEND_ENTRIES 5 0 1 4 [] 3), (0, APPEND_ENTRIES 5 0 1 4 [] 3)]))
   \<and> map_option (map_sum id (\<lambda>tc. (clock tc, progress (cluster tc))))
       (timedRun heartbeat100 (newTimedCluster 5) (lostEntriesSchedule @ [(2145, Deliver 0 1 0)]))
     = Some (Inr (2145,
                  [(3, 3, [2, 4]), (2, 2, [2, 4, 4]), (0, 0, [2, 4]), (2, 2, [2, 4]), (0, 0, [2, 4])]))
   \<and> min 3 (1 + int (length ([] :: LogEntry list))) = (1 :: int)"
  by code_simp

section \<open>Client interface\<close>

text \<open>
  C9. \<^verbatim>\<open>RaftCluster.submitCommand\<close> throws "No leader elected" when no node is in the
  Leader role; otherwise it calls \<^verbatim>\<open>submitCommand\<close> of the first Leader among its
  nodes, which appends one entry with the Leader's current term at the end of the Leader's
  log. \<^verbatim>\<open>RaftNode.submitCommand\<close> of a node that is not Leader throws "Not the leader";
  the throw is the first statement, so nothing has been appended (the error result carries
  no changed node).
\<close>

theorem submitCommand_routing:
  "((\<forall>n \<in> set (nodes c). currentState n \<noteq> LEADER) \<longrightarrow> clusterSubmitCommand c cmd = Inl NoLeaderElected)
   \<and> ((\<exists>n \<in> set (nodes c). currentState n = LEADER) \<longrightarrow>
        (\<exists>l. getLeader c = Some l \<and> l \<in> set (nodes c) \<and> currentState l = LEADER
             \<and> clusterSubmitCommand c cmd = map_sum id (\<lambda>r. (setNode c (fst r), snd r)) (submitCommand l cmd)
             \<and> submitCommand l cmd =
                 Inr (l\<lparr>state := (state l)\<lparr>log := log (state l) @
                          [\<lparr>entryTerm = currentTerm (state l), command = cmd,
                            index = int (length (log (state l)))\<rparr>]\<rparr>\<rparr>,
                      int (length (log (state l))))))
   \<and> (currentState m \<noteq> LEADER \<longrightarrow> submitCommand m cmd = Inl NotTheLeader)"
proof (intro conjI impI)
  assume "\<forall>n \<in> set (nodes c). currentState n \<noteq> LEADER"
  then have "getLeader c = None"
    by (simp add: getLeader_def find_None_iff)
  then show "clusterSubmitCommand c cmd = Inl NoLeaderElected"
    by (simp add: clusterSubmitCommand_def)
next
  assume "\<exists>n \<in> set (nodes c). currentState n = LEADER"
  then have "getLeader c \<noteq> None"
    by (auto simp: getLeader_def find_None_iff)
  then obtain l where l: "getLeader c = Some l" by blast
  then have m: "l \<in> set (nodes c)" and s: "currentState l = LEADER"
    by (auto simp: getLeader_def find_Some_iff)
  have "submitCommand l cmd =
          Inr (l\<lparr>state := (state l)\<lparr>log := log (state l) @
                   [\<lparr>entryTerm = currentTerm (state l), command = cmd,
                     index = int (length (log (state l)))\<rparr>]\<rparr>\<rparr>,
               int (length (log (state l))))"
    using s by (simp add: submitCommand_def appendEntry_def Let_def)
  moreover have "clusterSubmitCommand c cmd
                   = map_sum id (\<lambda>r. (setNode c (fst r), snd r)) (submitCommand l cmd)"
    using l by (simp add: clusterSubmitCommand_def split: sum.splits)
  ultimately show "\<exists>l. getLeader c = Some l \<and> l \<in> set (nodes c) \<and> currentState l = LEADER
             \<and> clusterSubmitCommand c cmd = map_sum id (\<lambda>r. (setNode c (fst r), snd r)) (submitCommand l cmd)
             \<and> submitCommand l cmd =
                 Inr (l\<lparr>state := (state l)\<lparr>log := log (state l) @
                          [\<lparr>entryTerm = currentTerm (state l), command = cmd,
                            index = int (length (log (state l)))\<rparr>]\<rparr>\<rparr>,
                      int (length (log (state l))))"
    using l m s by blast
next
  assume "currentState m \<noteq> LEADER"
  then show "submitCommand m cmd = Inl NotTheLeader"
    by (simp add: submitCommand_def)
qed

theorem submitCommand_routing_witness:
  "list_all (\<lambda>n. currentState n \<noteq> LEADER) (nodes (newRaftCluster 2))
   \<and> clusterSubmitCommand (newRaftCluster 2) ''x'' = Inl NoLeaderElected
   \<and> (\<exists>n \<in> set (nodes leaderOfTwo). currentState n = LEADER)
   \<and> map_sum id (\<lambda>r. (map (\<lambda>n. map command (log (state n))) (nodes (fst r)), snd r))
       (clusterSubmitCommand leaderOfTwo ''x'') = Inr ([[], [''x'']], 0)
   \<and> currentState (newRaftNode 0) \<noteq> LEADER
   \<and> submitCommand (newRaftNode 0) ''x'' = Inl NotTheLeader"
proof -
  have a: "\<forall>n \<in> set (nodes (newRaftCluster 2)). currentState n \<noteq> LEADER"
    by (simp add: newRaftCluster_def newRaftNode_def resetElectionTimer_def upt_rec)
  have b: "\<exists>n \<in> set (nodes leaderOfTwo). currentState n = LEADER"
    by (simp add: leaderOfTwo_def)
  have c: "currentState (newRaftNode 0) \<noteq> LEADER"
    by (simp add: newRaftNode_def resetElectionTimer_def)
  from submitCommand_routing [of "newRaftCluster 2" "''x''" "newRaftNode 0"] a c
  have d: "clusterSubmitCommand (newRaftCluster 2) ''x'' = Inl NoLeaderElected"
    and e: "submitCommand (newRaftNode 0) ''x'' = Inl NotTheLeader"
    by blast+
  from submitCommand_routing [of leaderOfTwo "''x''" "newRaftNode 0"] b
  obtain l where l: "getLeader leaderOfTwo = Some l"
    and f: "clusterSubmitCommand leaderOfTwo ''x''
              = map_sum id (\<lambda>r. (setNode leaderOfTwo (fst r), snd r)) (submitCommand l ''x'')"
    and g: "submitCommand l ''x'' =
                 Inr (l\<lparr>state := (state l)\<lparr>log := log (state l) @
                          [\<lparr>entryTerm = currentTerm (state l), command = ''x'',
                            index = int (length (log (state l)))\<rparr>]\<rparr>\<rparr>,
                      int (length (log (state l))))"
    by blast
  have "getLeader leaderOfTwo = Some ((newRaftNode 1)\<lparr>currentState := LEADER\<rparr>)"
    by (simp add: getLeader_def leaderOfTwo_def newRaftNode_def resetElectionTimer_def)
  with l have "l = (newRaftNode 1)\<lparr>currentState := LEADER\<rparr>" by simp
  with f g have "map_sum id (\<lambda>r. (map (\<lambda>n. map command (log (state n))) (nodes (fst r)), snd r))
       (clusterSubmitCommand leaderOfTwo ''x'') = Inr ([[], [''x'']], 0)"
    by (simp add: setNode_def leaderOfTwo_def newRaftNode_def resetElectionTimer_def)
  with a b c d e show ?thesis by (simp add: list_all_iff)
qed

section \<open>Commit rule of the Leader\<close>

lemma applyCommittedEntries_frame:
  "commitIndex (fst (applyCommittedEntries n)) = commitIndex n
   \<and> state (fst (applyCommittedEntries n)) = state n
   \<and> currentState (fst (applyCommittedEntries n)) = currentState n"
proof (induction n rule: applyCommittedEntries.induct)
  case (1 n)
  then show ?case
    by (subst (1 2 3) applyCommittedEntries.simps) (simp add: Let_def)
qed

lemma descending_prefix_count:
  fixes xs :: "int list"
  assumes "k < length xs"
  shows "k + 1 \<le> length (filter (\<lambda>x. rev (sort xs) ! k \<le> x) xs)"
proof -
  define ys where "ys = rev (sort xs)"
  define P where "P = (\<lambda>x. ys ! k \<le> x)"
  have len: "length ys = length xs" by (simp add: ys_def)
  have desc: "sorted_wrt (\<lambda>x y. y \<le> x) ys"
    by (simp add: ys_def sorted_wrt_rev)
  have "\<forall>x \<in> set (take (k + 1) ys). P x"
  proof
    fix x assume "x \<in> set (take (k + 1) ys)"
    then obtain i where i: "i < k + 1" "i < length ys" "x = ys ! i"
      by (auto simp: in_set_conv_nth)
    show "P x"
    proof (cases "i = k")
      case True with i show ?thesis by (simp add: P_def)
    next
      case False
      with i have "i < k" by simp
      with assms len sorted_wrt_nth_less [OF desc, of i k] have "ys ! k \<le> ys ! i"
        by simp
      with i show ?thesis by (simp add: P_def)
    qed
  qed
  then have "filter P (take (k + 1) ys) = take (k + 1) ys"
    by (simp add: filter_id_conv del: take_Suc_conv_app_nth)
  then have "length (filter P (take (k + 1) ys)) = k + 1"
    using assms len by simp
  moreover have "length (filter P ys) = length (filter P (take (k + 1) ys)) + length (filter P (drop (k + 1) ys))"
    by (metis append_take_drop_id filter_append length_append)
  moreover have "length (filter P ys) = length (filter P xs)"
    by (simp add: ys_def rev_filter [symmetric] filter_sort)
  ultimately show ?thesis by (simp add: P_def ys_def)
qed

text \<open>
  C2. When \<^verbatim>\<open>updateCommitIndex\<close> changes the commit index, the new index is greater
  than the old one, the Leader's own log has an entry there whose term is the Leader's
  current term, and strictly more than half of all nodes (the peers in \<open>matchIndex\<close> and
  the Leader itself) have a match index of at least the new commit index. An index whose
  entry has another term is never committed by this count. That \<open>matchIndex\<close> has one
  entry for each of the other nodes is \<open>initLeaderState_counts_all_nodes\<close> below.
\<close>

theorem updateCommitIndex_majority:
  "updateCommitIndex n = Inr (n', es) \<and> commitIndex n' \<noteq> commitIndex n \<longrightarrow>
     commitIndex n < commitIndex n'
     \<and> (\<exists>e. getEntry (state n) (commitIndex n') = Some e \<and> entryTerm e = currentTerm (state n))
     \<and> commitIndex n' \<le> getLastLogIndex (state n)
     \<and> length (matchIndex n) + 1
          < 2 * (1 + length (filter (\<lambda>p. commitIndex n' \<le> snd p) (matchIndex n)))"
proof (intro impI, elim conjE)
  assume u: "updateCommitIndex n = Inr (n', es)" and ch: "commitIndex n' \<noteq> commitIndex n"
  define m where "m = majorityIndex n"
  from u ch have gt: "commitIndex n < m"
    by (auto simp: updateCommitIndex_def m_def split: if_splits)
  with u obtain e where e: "getEntry (state n) m = Some e"
    by (auto simp: updateCommitIndex_def m_def split: option.splits)
  with u ch gt have t: "entryTerm e = currentTerm (state n)"
    by (auto simp: updateCommitIndex_def m_def split: if_splits)
  with u gt e have "(n', es) = applyCommittedEntries (n\<lparr>commitIndex := m\<rparr>)"
    by (simp add: updateCommitIndex_def m_def)
  then have "n' = fst (applyCommittedEntries (n\<lparr>commitIndex := m\<rparr>))"
    by (metis fst_conv)
  then have c: "commitIndex n' = m"
    by (simp add: applyCommittedEntries_frame)
  from e have le: "m \<le> getLastLogIndex (state n)"
    by (simp add: getEntry_def getLastLogIndex_def split: if_splits)
  define xs where "xs = map snd (matchIndex n) @ [getLastLogIndex (state n)]"
  have mi: "m = rev (sort xs) ! (length xs div 2)"
    by (simp add: m_def majorityIndex_def xs_def Let_def)
  have "length xs div 2 < length xs" by (simp add: xs_def)
  from descending_prefix_count [OF this]
  have "length xs div 2 + 1 \<le> length (filter (\<lambda>x. m \<le> x) xs)"
    by (simp add: mi)
  moreover have "length (filter (\<lambda>x. m \<le> x) xs)
                   = length (filter (\<lambda>p. m \<le> snd p) (matchIndex n)) + 1"
    using le by (simp add: xs_def filter_map o_def)
  moreover have "length xs = length (matchIndex n) + 1"
    by (simp add: xs_def)
  ultimately have "length (matchIndex n) + 1
          < 2 * (1 + length (filter (\<lambda>p. m \<le> snd p) (matchIndex n)))"
    by presburger
  with gt e t le c
  show "commitIndex n < commitIndex n'
     \<and> (\<exists>e. getEntry (state n) (commitIndex n') = Some e \<and> entryTerm e = currentTerm (state n))
     \<and> commitIndex n' \<le> getLastLogIndex (state n)
     \<and> length (matchIndex n) + 1
          < 2 * (1 + length (filter (\<lambda>p. commitIndex n' \<le> snd p) (matchIndex n)))"
    by simp
qed

theorem updateCommitIndex_majority_witness:
  "updateCommitIndex leaderOfThree = Inr (applyCommittedEntries (leaderOfThree\<lparr>commitIndex := 0\<rparr>))
   \<and> commitIndex (fst (applyCommittedEntries (leaderOfThree\<lparr>commitIndex := 0\<rparr>))) = 0
   \<and> commitIndex leaderOfThree = - 1
   \<and> getEntry (state leaderOfThree) 0 = Some \<lparr>entryTerm = 1, command = ''a'', index = 0\<rparr>
   \<and> length (matchIndex leaderOfThree) + 1
        < 2 * (1 + length (filter (\<lambda>p. 0 \<le> snd p) (matchIndex leaderOfThree)))"
proof -
  have m: "majorityIndex leaderOfThree = 0"
    by (simp add: majorityIndex_def leaderOfThree_def getLastLogIndex_def Let_def)
  have g: "getEntry (state leaderOfThree) 0 = Some \<lparr>entryTerm = 1, command = ''a'', index = 0\<rparr>"
    by (simp add: leaderOfThree_def getEntry_def)
  have t: "currentTerm (state leaderOfThree) = 1"
    by (simp add: leaderOfThree_def)
  have d: "commitIndex leaderOfThree = - 1"
    by (simp add: leaderOfThree_def newRaftNode_def resetElectionTimer_def)
  have u: "updateCommitIndex leaderOfThree
             = Inr (fst (applyCommittedEntries (leaderOfThree\<lparr>commitIndex := 0\<rparr>)),
                    snd (applyCommittedEntries (leaderOfThree\<lparr>commitIndex := 0\<rparr>)))"
    by (simp add: updateCommitIndex_def m g t d)
  have c: "commitIndex (fst (applyCommittedEntries (leaderOfThree\<lparr>commitIndex := 0\<rparr>))) = 0"
    by (simp add: applyCommittedEntries_frame)
  from updateCommitIndex_majority
         [of leaderOfThree "fst (applyCommittedEntries (leaderOfThree\<lparr>commitIndex := 0\<rparr>))"
             "snd (applyCommittedEntries (leaderOfThree\<lparr>commitIndex := 0\<rparr>))"] u c d
  have maj: "length (matchIndex leaderOfThree) + 1
        < 2 * (1 + length (filter (\<lambda>p. 0 \<le> snd p) (matchIndex leaderOfThree)))"
    by simp
  from u c d g maj show ?thesis
    by simp
qed

section \<open>Applying committed entries\<close>

lemma appliedIndices_append [simp]:
  "appliedIndices (es @ fs) = appliedIndices es @ appliedIndices fs"
  by (induction es rule: appliedIndices.induct) simp_all
















lemma advances_stats:
  "advances (n\<lparr>stats := s\<rparr>) r \<Longrightarrow> advances n r"
  by (simp add: advances_def)





section \<open>Terms and roles across the calls of a node\<close>

lemma state_sendAppendEntries: "sendAppendEntries n p = Inr r \<Longrightarrow> state (fst r) = state n"
  by (auto simp: sendAppendEntries_def countSent_def Let_def split: option.splits if_splits)

lemma state_sendToPeers: "sendToPeers n ps = Inr r \<Longrightarrow> state (fst r) = state n"
proof (induction ps arbitrary: n r)
  case Nil
  then show ?case by auto
next
  case (Cons p ps)
  show ?case
  proof (cases "p = nodeId n")
    case True
    with Cons show ?thesis by simp
  next
    case False
    with Cons.prems obtain r1 r2 where
      a: "sendAppendEntries n p = Inr r1" and b: "sendToPeers (fst r1) ps = Inr r2"
      and c: "r = (fst r2, snd r1 @ snd r2)"
      by (auto split: sum.splits)
    from state_sendAppendEntries [OF a] Cons.IH [OF b] c show ?thesis
      by simp
  qed
qed

lemma state_initLeaderState: "state (initLeaderState n ps) = state n"
  by (induction n ps rule: initLeaderState.induct) simp_all

lemma state_becomeLeader: "becomeLeader n ids = Inr r \<Longrightarrow> state (fst r) = state n"
proof -
  assume a: "becomeLeader n ids = Inr r"
  define n3 where "n3 = initLeaderState (stopElectionTimer
      (n\<lparr>stats := (stats n)\<lparr>electionsWon := electionsWon (stats n) + 1\<rparr>, currentState := LEADER\<rparr>)) ids"
  from a obtain r1 where b: "sendHeartbeats n3 ids = Inr r1" and c: "r = (startHeartbeatTimer (fst r1), snd r1)"
    by (auto simp: becomeLeader_def Let_def n3_def split: sum.splits)
  have "state (fst r1) = state n3"
    using b state_sendToPeers [of n3 ids r1]
    by (auto simp: sendHeartbeats_def split: if_splits)
  moreover have "state n3 = state n"
    by (simp add: n3_def state_initLeaderState stopElectionTimer_def)
  ultimately show ?thesis using c
    by (simp add: startHeartbeatTimer_def)
qed

lemma currentTerm_appendEntries:
  "appendEntries ps i es = Inr ps' \<Longrightarrow> currentTerm ps' = currentTerm ps"
  by (induction ps i es rule: appendEntries.induct)
     (auto simp: appendEntry_def deleteEntriesFrom_def split: if_splits option.splits)

lemma currentTerm_leaderContact:
  "currentTerm (state n) \<le> mterm \<Longrightarrow> currentTerm (state (leaderContact n mterm)) = mterm"
  by (simp add: leaderContact_def Let_def node_defs)

lemma term_handleRequestVote:
  "currentTerm (state (fst (handleRequestVote n mterm candidateId lastLogIndex lastLogTerm senderId)))
     = max (currentTerm (state n)) mterm"
  by (simp add: handleRequestVote_def Let_def node_defs)

lemma term_handleRequestVoteResponse:
  "handleRequestVoteResponse n mterm voteGranted votesReceived nodeCount allNodeIds = Inr r
     \<Longrightarrow> currentTerm (state n) \<le> currentTerm (state (fst r))"
  by (auto simp: handleRequestVoteResponse_def Let_def node_defs
      split: if_splits dest!: state_becomeLeader)

lemma term_updateCommitIndex: "updateCommitIndex n = Inr r \<Longrightarrow> state (fst r) = state n"
  by (auto simp: updateCommitIndex_def applyCommittedEntries_frame split: if_splits option.splits)

lemma term_handleAppendEntriesResponse:
  "handleAppendEntriesResponse n mterm success mIndex senderId = Inr r
     \<Longrightarrow> currentTerm (state n) \<le> currentTerm (state (fst r))"
  by (auto simp: handleAppendEntriesResponse_def node_defs
      split: if_splits option.splits dest!: term_updateCommitIndex state_sendAppendEntries)

lemma term_handleAppendEntries:
  "handleAppendEntries n mterm leaderId prevLogIndex prevLogTerm entries leaderCommit senderId = Inr r
     \<Longrightarrow> currentTerm (state (fst r)) = max (currentTerm (state n)) mterm"
proof -
  assume a: "handleAppendEntries n mterm leaderId prevLogIndex prevLogTerm entries leaderCommit senderId = Inr r"
  show ?thesis
  proof (cases "mterm < currentTerm (state n)")
    case True
    with a show ?thesis
      by (auto simp: handleAppendEntries_def respondAppend_def countSent_def)
  next
    case False
    then have t: "currentTerm (state (leaderContact n mterm)) = mterm"
      by (simp add: currentTerm_leaderContact)
    from a False consider
        (reject) "r = respondAppend (leaderContact n mterm) False prevLogIndex entries senderId []"
      | (accept) ps where "appendEntries (state (leaderContact n mterm)) (prevLogIndex + 1) entries = Inr ps"
          "r = respondAppend (fst (followerCommit ((leaderContact n mterm)\<lparr>state := ps\<rparr>) leaderCommit)) True
                 prevLogIndex entries senderId
                 (snd (followerCommit ((leaderContact n mterm)\<lparr>state := ps\<rparr>) leaderCommit))"
      by (auto simp: handleAppendEntries_def Let_def split: sum.splits bool.splits)
    then show ?thesis
    proof cases
      case reject
      with t False show ?thesis by (simp add: respondAppend_def countSent_def)
    next
      case accept
      from currentTerm_appendEntries [OF accept(1)] t have "currentTerm ps = mterm" by simp
      moreover have "state (fst (followerCommit ((leaderContact n mterm)\<lparr>state := ps\<rparr>) leaderCommit)) = ps"
        by (simp add: followerCommit_def applyCommittedEntries_frame)
      ultimately show ?thesis
        using accept(2) False by (simp add: respondAppend_def countSent_def)
    qed
  qed
qed

lemma currentTerm_never_decreases:
  "callNode n c = Inr r \<Longrightarrow> currentTerm (state n) \<le> currentTerm (state (fst r))"
proof (cases c)
  case (StartElection nodeCount)
  assume "callNode n c = Inr r"
  with StartElection show ?thesis
    by (auto simp: callNode_def startElection_def Let_def node_defs)
next
  case (SendHeartbeats ids)
  assume "callNode n c = Inr r"
  with SendHeartbeats show ?thesis
    using state_sendToPeers [of n ids r]
    by (auto simp: callNode_def sendHeartbeats_def split: if_splits)
next
  case (HandleMessage msg senderId votesReceived nodeCount allNodeIds)
  assume a: "callNode n c = Inr r"
  define n1 where "n1 = n\<lparr>stats := (stats n)\<lparr>messagesReceived := messagesReceived (stats n) + 1\<rparr>\<rparr>"
  have "currentTerm (state n1) \<le> currentTerm (state (fst r))"
  proof (cases msg)
    case (REQUEST_VOTE t cand lli llt)
    with a HandleMessage have "r = handleRequestVote n1 t cand lli llt senderId"
      by (simp add: callNode_def handleMessage_def n1_def)
    then show ?thesis by (simp add: term_handleRequestVote)
  next
    case (REQUEST_VOTE_RESPONSE t g)
    with a HandleMessage
    have "handleRequestVoteResponse n1 t g votesReceived nodeCount allNodeIds = Inr r"
      by (simp add: callNode_def handleMessage_def n1_def)
    then show ?thesis by (rule term_handleRequestVoteResponse)
  next
    case (APPEND_ENTRIES t l pli plt es lc)
    with a HandleMessage have "handleAppendEntries n1 t l pli plt es lc senderId = Inr r"
      by (simp add: callNode_def handleMessage_def n1_def)
    from term_handleAppendEntries [OF this] show ?thesis by simp
  next
    case (APPEND_ENTRIES_RESPONSE t ok mi)
    with a HandleMessage have "handleAppendEntriesResponse n1 t ok mi senderId = Inr r"
      by (simp add: callNode_def handleMessage_def n1_def)
    then show ?thesis by (rule term_handleAppendEntriesResponse)
  next
    case CLIENT_REQUEST
    with a HandleMessage have "r = (n1, [])"
      by (simp add: callNode_def handleMessage_def n1_def)
    then show ?thesis by simp
  qed
  then show ?thesis by (simp add: n1_def)
next
  case (SubmitCommand cmd)
  assume "callNode n c = Inr r"
  with SubmitCommand show ?thesis
    by (auto simp: callNode_def submitCommand_def Let_def appendEntry_def split: if_splits)
qed

lemma role_sendAppendEntries: "sendAppendEntries n p = Inr r \<Longrightarrow> currentState (fst r) = currentState n"
  by (auto simp: sendAppendEntries_def countSent_def Let_def split: option.splits if_splits)

lemma role_sendToPeers: "sendToPeers n ps = Inr r \<Longrightarrow> currentState (fst r) = currentState n"
proof (induction ps arbitrary: n r)
  case Nil
  then show ?case by auto
next
  case (Cons p ps)
  show ?case
  proof (cases "p = nodeId n")
    case True
    with Cons show ?thesis by simp
  next
    case False
    with Cons.prems obtain r1 r2 where
      a: "sendAppendEntries n p = Inr r1" and b: "sendToPeers (fst r1) ps = Inr r2"
      and c: "r = (fst r2, snd r1 @ snd r2)"
      by (auto split: sum.splits)
    from role_sendAppendEntries [OF a] Cons.IH [OF b] c show ?thesis
      by simp
  qed
qed

lemma role_initLeaderState: "currentState (initLeaderState n ps) = currentState n"
  by (induction n ps rule: initLeaderState.induct) simp_all

lemma role_becomeLeader: "becomeLeader n ids = Inr r \<Longrightarrow> currentState (fst r) = LEADER"
proof -
  assume a: "becomeLeader n ids = Inr r"
  define n3 where "n3 = initLeaderState (stopElectionTimer
      (n\<lparr>stats := (stats n)\<lparr>electionsWon := electionsWon (stats n) + 1\<rparr>, currentState := LEADER\<rparr>)) ids"
  have l: "currentState n3 = LEADER"
    by (simp add: n3_def role_initLeaderState stopElectionTimer_def)
  from a obtain r1 where b: "sendHeartbeats n3 ids = Inr r1" and c: "r = (startHeartbeatTimer (fst r1), snd r1)"
    by (auto simp: becomeLeader_def Let_def n3_def split: sum.splits)
  from b l have "sendToPeers n3 ids = Inr r1"
    by (simp add: sendHeartbeats_def)
  from role_sendToPeers [OF this] l c show ?thesis
    by (simp add: startHeartbeatTimer_def)
qed

text \<open>
  The test of \<^verbatim>\<open>handleRequestVoteResponse\<close> itself: a node that is not Leader becomes
  Leader by this call exactly when it is Candidate, the response carries its current term
  and a granted vote, and the tally that the cluster holds for it has reached
  \<open>\<lfloor>N / 2\<rfloor> + 1\<close>.
\<close>

lemma handleRequestVoteResponse_threshold:
  assumes "handleRequestVoteResponse n mterm voteGranted votesReceived nodeCount allNodeIds = Inr r"
    and "currentState n \<noteq> LEADER"
  shows "currentState (fst r) = LEADER \<longleftrightarrow>
           currentState n = CANDIDATE \<and> mterm = currentTerm (state n) \<and> voteGranted
           \<and> votesReceived \<ge> nodeCount div 2 + 1"
proof (cases "currentState n = CANDIDATE \<and> mterm = currentTerm (state n) \<and> voteGranted
           \<and> votesReceived \<ge> nodeCount div 2 + 1")
  case True
  with assms(1) have "becomeLeader n allNodeIds = Inr r"
    by (simp add: handleRequestVoteResponse_def Let_def)
  from role_becomeLeader [OF this] True show ?thesis by simp
next
  case False
  with assms have "r = (n, []) \<or> r = (becomeFollower n mterm, [])"
    by (auto simp: handleRequestVoteResponse_def Let_def split: if_splits)
  with False assms(2) show ?thesis
    by (auto simp: node_defs)
qed


section \<open>Timed executions\<close>

text \<open>
  \<open>pickIndex\<close> is the position of the delivery that \<open>pick\<close> takes out, a callback
  appends what it sends to \<open>network\<close>, and so \<open>sentAt\<close> stays aligned with \<open>network\<close>:
  the entry at a position is the time at which the delivery at that position was sent.
  A timed execution is an execution (\<open>timedRun_run\<close>), and every callback of it runs
  within its bounds (\<open>timedStep_bounds\<close>).
\<close>

lemma pick_pickIndex:
  "pick net f t k = Some (m, rest) \<Longrightarrow>
     \<exists>p. pickIndex net f t k = Some p \<and> p < length net \<and> net ! p = (f, t, m)
         \<and> rest = take p net @ drop (Suc p) net"
proof (induction net arbitrary: k m rest)
  case Nil
  then show ?case by simp
next
  case (Cons a net)
  show ?case
  proof (cases "fst a = f \<and> fst (snd a) = t")
    case True
    show ?thesis
    proof (cases k)
      case 0
      with True Cons.prems show ?thesis by (auto simp: prod_eq_iff)
    next
      case (Suc j)
      with True Cons.prems obtain r where r: "pick net f t j = Some r" and m: "m = fst r"
        and rest: "rest = a # snd r"
        by (auto split: option.splits)
      from Cons.IH [of j "fst r" "snd r"] r obtain p where
        "pickIndex net f t j = Some p" "p < length net" "net ! p = (f, t, fst r)"
        "snd r = take p net @ drop (Suc p) net"
        by auto
      with True Suc m rest show ?thesis by auto
    qed
  next
    case False
    with Cons.prems obtain r where r: "pick net f t k = Some r" and m: "m = fst r"
      and rest: "rest = a # snd r"
      by (auto split: option.splits)
    from Cons.IH [of k "fst r" "snd r"] r obtain p where
      "pickIndex net f t k = Some p" "p < length net" "net ! p = (f, t, fst r)"
      "snd r = take p net @ drop (Suc p) net"
      by auto
    with False m rest show ?thesis by auto
  qed
qed

lemma network_send: "network (send c i j msg) = network c @ [(i, j, msg)]"
  by (cases msg) (simp_all add: send_def Let_def)

lemma network_sendEach: "\<exists>new. network (sendEach c i ids msg) = network c @ new"
proof (induction ids arbitrary: c)
  case Nil
  then show ?case by simp
next
  case (Cons a ids)
  show ?case
  proof (cases "a = i")
    case True
    with Cons.IH [of c] show ?thesis by simp
  next
    case False
    from Cons.IH [of "send c i a msg"] obtain new where
      "network (sendEach (send c i a msg) i ids msg) = network (send c i a msg) @ new" ..
    with False show ?thesis by (simp add: network_send)
  qed
qed

lemma network_broadcast: "\<exists>new. network (broadcast c i msg) = network c @ new"
proof -
  have "\<exists>new. network (sendEach c1 i ids msg) = network c @ new" if "network c1 = network c" for c1 ids
    using network_sendEach [of c1 i ids msg] that by simp
  then show ?thesis
    by (cases msg) (simp_all add: broadcast_def Let_def getAllNodeIds_def)
qed

lemma network_perform:
  "perform c i es = Inr c' \<Longrightarrow> \<exists>new. network c' = network c @ new"
proof (induction c i es rule: perform.induct)
  case (1 c i)
  then show ?case by simp
next
  case (2 c i toId msg es)
  then obtain new where "network c' = network (send c i toId msg) @ new" by auto
  then show ?case by (simp add: network_send)
next
  case (3 c i msg es)
  then obtain new where n: "network c' = network (broadcast c i msg) @ new" by auto
  from network_broadcast [of c i msg] obtain new' where "network (broadcast c i msg) = network c @ new'" ..
  with n show ?case by simp
next
  case (4 c i k entry es)
  then show ?case by (cases entry) auto
qed

lemma network_setNode [simp]: "network (setNode c n) = network c"
  by (simp add: setNode_def)

lemma network_step:
  assumes "step c ev = Some (Inr c')"
  shows "\<exists>new. network c' =
           (case ev of
              Deliver f t k \<Rightarrow> (case pickIndex (network c) f t k of
                                  None \<Rightarrow> network c
                                | Some p \<Rightarrow> take p (network c) @ drop (Suc p) (network c))
            | _ \<Rightarrow> network c) @ new"
proof (cases ev)
  case (ElectionTimeout i)
  with assms obtain n where "perform (setNode c (fst (startElection n (getNodeCount c)))) i
      (snd (startElection n (getNodeCount c))) = Inr c'"
    by (auto simp: step_def Let_def split: option.splits if_splits)
  from network_perform [OF this] ElectionTimeout show ?thesis by simp
next
  case (HeartbeatTick i)
  with assms obtain n r where "perform (setNode c (fst r)) i (snd r) = Inr c'"
    by (auto simp: step_def Let_def split: option.splits if_splits sum.splits)
  from network_perform [OF this] HeartbeatTick show ?thesis by simp
next
  case (Deliver f t k)
  with assms obtain d where d: "pick (network c) f t k = Some d"
    by (auto simp: step_def split: option.splits)
  from pick_pickIndex [of "network c" f t k "fst d" "snd d"] d obtain p where
    p: "pickIndex (network c) f t k = Some p" "snd d = take p (network c) @ drop (Suc p) (network c)"
    by auto
  have "\<exists>new. network c' = snd d @ new"
  proof (cases "getNode (c\<lparr>network := snd d\<rparr>) t")
    case None
    with assms Deliver d show ?thesis by (auto simp: step_def Let_def)
  next
    case (Some n)
    with assms Deliver d obtain r where
      "perform (setNode (c\<lparr>network := snd d\<rparr>) (fst r)) t (snd r) = Inr c'"
      by (auto simp: step_def Let_def split: sum.splits)
    from network_perform [OF this] show ?thesis by simp
  qed
  with p Deliver show ?thesis by simp
next
  case (ClientSubmit cmd)
  with assms have "network c' = network c"
    by (auto simp: step_def clusterSubmitCommand_def split: option.splits sum.splits)
  with ClientSubmit show ?thesis by simp
qed

lemma sentAt_aligned:
  assumes "timedStep cfg tc te = Some (Inr tc')" and "length (sentAt tc) = length (network (cluster tc))"
  shows "length (sentAt tc') = length (network (cluster tc'))
         \<and> (\<exists>new. network (cluster tc') = (case snd te of
                Deliver f t k \<Rightarrow> (case pickIndex (network (cluster tc)) f t k of
                                    None \<Rightarrow> network (cluster tc)
                                  | Some p \<Rightarrow> take p (network (cluster tc)) @ drop (Suc p) (network (cluster tc)))
              | _ \<Rightarrow> network (cluster tc)) @ new
              \<and> sentAt tc' = (case snd te of
                Deliver f t k \<Rightarrow> (case pickIndex (network (cluster tc)) f t k of
                                    None \<Rightarrow> sentAt tc
                                  | Some p \<Rightarrow> take p (sentAt tc) @ drop (Suc p) (sentAt tc))
              | _ \<Rightarrow> sentAt tc) @ replicate (length new) (fst te))"
proof -
  from assms(1) obtain c' where s: "step (cluster tc) (snd te) = Some (Inr c')"
    and tc': "tc' = advance cfg tc (fst te) (snd te) c'"
    by (auto simp: timedStep_def split: if_splits option.splits sum.splits)
  from network_step [OF s] obtain new where new: "network c' =
           (case snd te of
              Deliver f t k \<Rightarrow> (case pickIndex (network (cluster tc)) f t k of
                                  None \<Rightarrow> network (cluster tc)
                                | Some p \<Rightarrow> take p (network (cluster tc)) @ drop (Suc p) (network (cluster tc)))
            | _ \<Rightarrow> network (cluster tc)) @ new" ..
  define kept where "kept = (case snd te of
                    Deliver fromId toId k \<Rightarrow>
                      (case pickIndex (network (cluster tc)) fromId toId k of
                         None \<Rightarrow> sentAt tc
                       | Some p \<Rightarrow> take p (sentAt tc) @ drop (Suc p) (sentAt tc))
                  | _ \<Rightarrow> sentAt tc)"
  have len: "length (network c') = length kept + length new"
    using new assms(2) by (auto simp: kept_def split: event.splits option.splits)
  have "sentAt tc' = kept @ replicate (length (network c') - length kept) (fst te)"
    by (simp add: tc' advance_def kept_def Let_def)
  with len have "sentAt tc' = kept @ replicate (length new) (fst te)" by simp
  moreover have "cluster tc' = c'" by (simp add: tc' advance_def Let_def)
  ultimately show ?thesis using new len by (auto simp: kept_def)
qed

lemma timedRun_run:
  "timedRun cfg tc tes = Some (Inr tc') \<Longrightarrow> run (cluster tc) (map snd tes) = Some (Inr (cluster tc'))"
proof (induction tes arbitrary: tc)
  case Nil
  then show ?case by simp
next
  case (Cons te tes)
  from Cons.prems obtain tc1 where t: "timedStep cfg tc te = Some (Inr tc1)"
    and r: "timedRun cfg tc1 tes = Some (Inr tc')"
    by (auto split: option.splits sum.splits)
  from t obtain c1 where s: "step (cluster tc) (snd te) = Some (Inr c1)" and c: "cluster tc1 = c1"
    by (auto simp: timedStep_def advance_def Let_def split: if_splits option.splits sum.splits)
  from Cons.IH [OF r] s c show ?case by simp
qed

lemma sentAt_length:
  "timedRun cfg tc tes = Some (Inr tc') \<Longrightarrow> length (sentAt tc) = length (network (cluster tc))
     \<Longrightarrow> length (sentAt tc') = length (network (cluster tc'))"
proof (induction tes arbitrary: tc)
  case Nil
  then show ?case by simp
next
  case (Cons te tes)
  from Cons.prems(1) obtain tc1 where t: "timedStep cfg tc te = Some (Inr tc1)"
    and r: "timedRun cfg tc1 tes = Some (Inr tc')"
    by (auto split: option.splits sum.splits)
  from sentAt_aligned [OF t Cons.prems(2)] have "length (sentAt tc1) = length (network (cluster tc1))"
    by simp
  from Cons.IH [OF r this] show ?case .
qed

lemma timedStep_bounds:
  assumes "timedStep cfg tc (t, ev) = Some r"
  shows "clock tc \<le> t"
    and "\<forall>s\<in>set (sentAt tc). t < s + 2 * networkDelay cfg"
    and "\<forall>n\<in>set (nodes (cluster tc)).
           electionTimer n \<longrightarrow> t < timeOf (armedAt tc) (nodeId n) + electionTimeoutMax cfg"
    and "\<forall>n\<in>set (nodes (cluster tc)). heartbeatTimer n \<longrightarrow> t \<le> timeOf (tickAt tc) (nodeId n)"
    and "case ev of
           ElectionTimeout i \<Rightarrow> timeOf (armedAt tc) i + electionTimeoutMin cfg \<le> t
         | HeartbeatTick i \<Rightarrow> t = timeOf (tickAt tc) i
         | Deliver fromId toId k \<Rightarrow>
             (\<exists>p. pickIndex (network (cluster tc)) fromId toId k = Some p
                  \<and> sentAt tc ! p + networkDelay cfg \<le> t)
         | ClientSubmit cmd \<Rightarrow> True"
proof -
  from assms have c: "clock tc \<le> t" and o: "\<not> overdue cfg tc t" and d: "due cfg tc t ev"
    by (auto simp: timedStep_def split: if_splits)
  from c show "clock tc \<le> t" .
  from o show "\<forall>s\<in>set (sentAt tc). t < s + 2 * networkDelay cfg"
    by (auto simp: overdue_def list_ex_iff)
  from o show "\<forall>n\<in>set (nodes (cluster tc)).
           electionTimer n \<longrightarrow> t < timeOf (armedAt tc) (nodeId n) + electionTimeoutMax cfg"
    by (auto simp: overdue_def list_ex_iff)
  from o show "\<forall>n\<in>set (nodes (cluster tc)). heartbeatTimer n \<longrightarrow> t \<le> timeOf (tickAt tc) (nodeId n)"
    by (auto simp: overdue_def list_ex_iff)
  from d show "case ev of
           ElectionTimeout i \<Rightarrow> timeOf (armedAt tc) i + electionTimeoutMin cfg \<le> t
         | HeartbeatTick i \<Rightarrow> t = timeOf (tickAt tc) i
         | Deliver fromId toId k \<Rightarrow>
             (\<exists>p. pickIndex (network (cluster tc)) fromId toId k = Some p
                  \<and> sentAt tc ! p + networkDelay cfg \<le> t)
         | ClientSubmit cmd \<Rightarrow> True"
    by (auto simp: due_def split: event.splits option.splits)
qed

text \<open>
  \<open>twoLeadersSchedule\<close>, with the times given in its description, is a timed execution
  of the cluster with a network delay of 100 ms.
\<close>

lemma twoLeadersSchedule_timed:
  "length twoLeadersTimes = length twoLeadersSchedule
   \<and> map_option (map_sum id (\<lambda>tc. (clock tc, leadersOf (cluster tc) 3)))
       (timedRun delay100 (newTimedCluster 5) (zip twoLeadersTimes twoLeadersSchedule))
     = Some (Inr (651, [0, 3]))"
  by code_simp

text \<open>
  A callback outside its bounds is refused. An election timer armed at 0 fires from 150
  to 299; a request sent at 150 arrives from 250 to 349 (here with a maximal election
  timeout of 1000 ms, so that no timer is overdue).
\<close>

lemma timeout_out_of_bounds:
  "timedRun delay100 (newTimedCluster 5) [(149, ElectionTimeout 0)] = None
   \<and> map_option (map_sum id clock) (timedRun delay100 (newTimedCluster 5) [(150, ElectionTimeout 0)])
     = Some (Inr 150)
   \<and> map_option (map_sum id clock) (timedRun delay100 (newTimedCluster 5) [(299, ElectionTimeout 0)])
     = Some (Inr 299)
   \<and> timedRun delay100 (newTimedCluster 5) [(300, ElectionTimeout 0)] = None"
  by code_simp

lemma delivery_out_of_bounds:
  "timedRun (delay100\<lparr>electionTimeoutMax := 1000\<rparr>) (newTimedCluster 5)
     [(150, ElectionTimeout 0), (249, Deliver 0 3 0)] = None
   \<and> map_option (map_sum id clock)
       (timedRun (delay100\<lparr>electionTimeoutMax := 1000\<rparr>) (newTimedCluster 5)
          [(150, ElectionTimeout 0), (250, Deliver 0 3 0)]) = Some (Inr 250)
   \<and> map_option (map_sum id clock)
       (timedRun (delay100\<lparr>electionTimeoutMax := 1000\<rparr>) (newTimedCluster 5)
          [(150, ElectionTimeout 0), (349, Deliver 0 3 0)]) = Some (Inr 349)
   \<and> timedRun (delay100\<lparr>electionTimeoutMax := 1000\<rparr>) (newTimedCluster 5)
       [(150, ElectionTimeout 0), (350, Deliver 0 3 0)] = None"
  by code_simp

text \<open>
  In \<open>lostEntriesSchedule\<close> no two callbacks run in the same millisecond, each of the
  184 deliveries takes from 101 to 198 ms, and each of the 7 election timeouts from 151
  to 298 ms.
\<close>

lemma lostEntriesSchedule_spans:
  "map_option (\<lambda>r. (list_all (\<lambda>d. 101 \<le> d \<and> d \<le> 198) (fst r), length (fst r),
                     list_all (\<lambda>d. 151 \<le> d \<and> d \<le> 298) (snd r), length (snd r)))
     (spans heartbeat100 (newTimedCluster 5) lostEntriesSchedule)
     = Some (True, 184, True, 7)
   \<and> distinct (map fst lostEntriesSchedule) \<and> sorted (map fst lostEntriesSchedule)"
  by code_simp

section \<open>Election safety\<close>

text \<open>
  C1. After \<open>twoLeadersSchedule\<close> nodes 0 and 3 are both Leader of term 3. Node 2 is in
  the tally of node 0 for its vote in term 2 and in the tally of node 3 for its vote in
  term 3: \<^verbatim>\<open>votes\<close> is keyed by the candidate alone, and \<^verbatim>\<open>send\<close> adds a granted
  response to it whatever the term of the response.
\<close>

theorem two_leaders_in_one_term:
  "map_option (map_sum id (\<lambda>c. (leadersOf c 3, roles c, votes c))) (run (newRaftCluster 5) twoLeadersSchedule)
     = Some (Inr ([0, 3],
                  [(LEADER, 3, Some 0), (FOLLOWER, 3, Some 0), (FOLLOWER, 3, Some 3),
                   (LEADER, 3, Some 3), (FOLLOWER, 3, Some 3)],
                  [(0, [0, 1, 2]), (3, [3, 2, 4])]))"
  by code_simp

section \<open>Becoming Leader\<close>

text \<open>
  C6. After \<open>staleVoteSchedule\<close> node 0 is Leader of term 3 with a tally of 3, the
  majority of 5. Its request of term 3 went to four nodes: node 1 granted, and the
  responses of nodes 2, 3 and 4, still pending, are denials. With its own vote node 0 has
  two votes of term 3.
\<close>

theorem leader_with_two_grants_of_five:
  "map_option
     (map_sum id (\<lambda>c. (roles c, countVotesReceived c 0, getNodeCount c div 2 + 1, pendingTo c 0)))
     (run (newRaftCluster 5) staleVoteSchedule)
     = Some (Inr ([(LEADER, 3, Some 0), (FOLLOWER, 3, Some 0), (FOLLOWER, 3, Some 3),
                   (CANDIDATE, 3, Some 3), (FOLLOWER, 3, Some 3)],
                  3, 3,
                  [(2, REQUEST_VOTE_RESPONSE 3 False), (4, REQUEST_VOTE_RESPONSE 3 False),
                   (3, REQUEST_VOTE_RESPONSE 3 False)]))"
  by code_simp

section \<open>Monotonicity\<close>

text \<open>
  C7. The current term of a node never decreases: \<open>currentTerm_never_decreases\<close>. The
  commit index does. At the end of \<open>lostEntriesSchedule\<close> node 3 has commit index 2 and
  two entries in its log. The first heartbeat of node 0 in term 5 (\<open>prevLogIndex = 1\<close>,
  no entries, \<open>leaderCommit = 3\<close>), delivered to node 3 at 2144, sets its commit index to
  \<open>min leaderCommit lastLogIndex = min 3 1 = 1\<close>. (Each triple is commit index,
  \<open>lastApplied\<close> and the terms of the log.)
\<close>

theorem commitIndex_decreases:
  "map_option (map_sum id (\<lambda>tc. (clock tc, progress (cluster tc), pendingTo (cluster tc) 3)))
     (timedRun heartbeat100 (newTimedCluster 5) lostEntriesSchedule)
     = Some (Inr (2143,
                  [(3, 3, [2, 4]), (1, 1, [2, 4, 4]), (0, 0, [2, 4]), (2, 2, [2, 4]), (0, 0, [2, 4])],
                  [(0, APPEND_ENTRIES 5 0 1 4 [] 3), (0, APPEND_ENTRIES 5 0 1 4 [] 3)]))
   \<and> map_option (map_sum id (\<lambda>tc. (clock tc, progress (cluster tc))))
       (timedRun heartbeat100 (newTimedCluster 5) (lostEntriesSchedule @ [(2144, Deliver 0 3 0)]))
     = Some (Inr (2144,
                  [(3, 3, [2, 4]), (1, 1, [2, 4, 4]), (0, 0, [2, 4]), (1, 2, [2, 4]), (0, 0, [2, 4])]))"
  by code_simp

section \<open>AppendEntries: what acceptance does\<close>

text \<open>
  The loop over the incoming entries computes \<open>specAppend\<close>, and an accepted message is
  answered with \<open>success = true\<close> and \<open>matchIndex = prevLogIndex + length entries\<close>. The
  commit index, when \<open>leaderCommit\<close> exceeds it, becomes the minimum of \<open>leaderCommit\<close>
  and the last index of the receiver's log after the append.
\<close>

lemma agreeing_past_end: "length lg \<le> start \<Longrightarrow> agreeing lg start entries = 0"
  by (simp add: agreeing_def)

lemma specAppend_past_end: "length lg \<le> start \<Longrightarrow> specAppend lg start entries = lg @ entries"
  by (cases entries) (simp_all add: specAppend_def agreeing_past_end)

lemma agreeing_Cons:
  assumes "start < length lg"
  shows "agreeing lg start (e # es) =
           (if entryTerm (lg ! start) = entryTerm e then Suc (agreeing lg (Suc start) es) else 0)"
proof -
  from assms have "drop start lg = lg ! start # drop (Suc start) lg"
    by (simp add: Cons_nth_drop_Suc)
  then show ?thesis by (simp add: agreeing_def)
qed

lemma appendEntries_specAppend:
  "start \<le> length (log ps) \<Longrightarrow>
     appendEntries ps (int start) entries = Inr (ps\<lparr>log := specAppend (log ps) start entries\<rparr>)"
proof (induction entries arbitrary: ps start)
  case Nil
  then show ?case by (simp add: specAppend_def agreeing_def)
next
  case (Cons e es)
  show ?case
  proof (cases "start < length (log ps)")
    case False
    with Cons.prems have eq: "start = length (log ps)" by simp
    have "appendEntries (appendEntry ps e) (int (Suc start)) es
            = Inr ((appendEntry ps e)\<lparr>log := specAppend (log (appendEntry ps e)) (Suc start) es\<rparr>)"
      by (rule Cons.IH) (simp add: appendEntry_def eq)
    then show ?thesis
      using eq by (simp add: specAppend_past_end appendEntry_def add.commute)
  next
    case True
    then have g: "getEntry ps (int start) = Some (log ps ! start)"
      by (simp add: getEntry_def)
    show ?thesis
    proof (cases "entryTerm (log ps ! start) = entryTerm e")
      case same: True
      have "appendEntries ps (int (Suc start)) es = Inr (ps\<lparr>log := specAppend (log ps) (Suc start) es\<rparr>)"
        by (rule Cons.IH) (use True in simp)
      moreover have "specAppend (log ps) start (e # es) = specAppend (log ps) (Suc start) es"
        using True same by (simp add: specAppend_def agreeing_Cons)
      ultimately show ?thesis
        using True g same by (simp add: add.commute)
    next
      case differ: False
      define ps1 where "ps1 = appendEntry (deleteEntriesFrom ps (int start)) e"
      have l1: "log ps1 = take start (log ps) @ [e]"
        by (simp add: ps1_def appendEntry_def deleteEntriesFrom_def sliceTo_def)
      have "appendEntries ps1 (int (Suc start)) es = Inr (ps1\<lparr>log := specAppend (log ps1) (Suc start) es\<rparr>)"
        by (rule Cons.IH) (use True in \<open>simp add: l1\<close>)
      moreover have "specAppend (log ps1) (Suc start) es = take start (log ps) @ e # es"
        using True by (simp add: specAppend_past_end l1)
      moreover have "specAppend (log ps) start (e # es) = take start (log ps) @ e # es"
        using True differ by (simp add: specAppend_def agreeing_Cons)
      ultimately show ?thesis
        using True g differ
        by (simp add: add.commute ps1_def appendEntry_def deleteEntriesFrom_def)
    qed
  qed
qed


lemma consistencyCheck_passes:
  "prevLogIndex = - 1 \<or> (\<exists>e. getEntry ps prevLogIndex = Some e \<and> entryTerm e = prevLogTerm)
     \<Longrightarrow> consistencyCheck ps prevLogIndex prevLogTerm = Inr True"
  by (auto simp: consistencyCheck_def getEntry_def split: if_splits)

lemma handleAppendEntries_acceptance:
  assumes t: "currentTerm (state n) \<le> mterm"
    and c: "prevLogIndex = - 1 \<or>
            (\<exists>e. getEntry (state n) prevLogIndex = Some e \<and> entryTerm e = prevLogTerm)"
  shows "\<exists>n' applied.
           handleAppendEntries n mterm leaderId prevLogIndex prevLogTerm entries leaderCommit senderId
             = Inr (n', applied @ [Send senderId
                      (APPEND_ENTRIES_RESPONSE mterm True (prevLogIndex + int (length entries)))])
           \<and> log (state n') = specAppend (log (state n)) (nat (prevLogIndex + 1)) entries
           \<and> commitIndex n' =
               (if leaderCommit > commitIndex n
                then min leaderCommit (getLastLogIndex (state n')) else commitIndex n)"
proof -
  define n3 where "n3 = leaderContact n mterm"
  have l3: "log (state n3) = log (state n)" and c3: "commitIndex n3 = commitIndex n"
    by (simp_all add: n3_def leaderContact_frame)
  have t3: "currentTerm (state n3) = mterm"
    using t by (simp add: n3_def currentTerm_leaderContact)
  have g3: "getEntry (state n3) prevLogIndex = getEntry (state n) prevLogIndex"
    by (simp add: getEntry_def l3)
  have chk: "consistencyCheck (state n3) prevLogIndex prevLogTerm = Inr True"
    using c by (intro consistencyCheck_passes) (simp add: g3)
  have s: "nat (prevLogIndex + 1) \<le> length (log (state n3))"
    using c by (auto simp: getEntry_def l3 split: if_splits)
  have "0 \<le> prevLogIndex + 1"
    using c by (auto simp: getEntry_def split: if_splits)
  then have i: "int (nat (prevLogIndex + 1)) = prevLogIndex + 1"
    by simp
  define ps where "ps = (state n3)\<lparr>log := specAppend (log (state n3)) (nat (prevLogIndex + 1)) entries\<rparr>"
  have a: "appendEntries (state n3) (prevLogIndex + 1) entries = Inr ps"
    using appendEntries_specAppend [OF s, of entries] unfolding i ps_def .
  define r where "r = followerCommit (n3\<lparr>state := ps\<rparr>) leaderCommit"
  have h: "handleAppendEntries n mterm leaderId prevLogIndex prevLogTerm entries leaderCommit senderId
             = Inr (respondAppend (fst r) True prevLogIndex entries senderId (snd r))"
    using t chk a by (simp add: handleAppendEntries_def Let_def n3_def [symmetric] r_def)
  have sr: "state (fst r) = ps"
    by (simp add: r_def followerCommit_def applyCommittedEntries_frame)
  have cr: "commitIndex (fst r) =
              (if leaderCommit > commitIndex n then min leaderCommit (getLastLogIndex ps) else commitIndex n)"
    by (simp add: r_def followerCommit_def applyCommittedEntries_frame c3)
  have "currentTerm ps = mterm" "log ps = specAppend (log (state n)) (nat (prevLogIndex + 1)) entries"
    by (simp_all add: ps_def t3 l3)
  with h sr cr show ?thesis
    by (simp add: respondAppend_def countSent_def)
qed

text \<open>
  The index of the last new entry is an index of the log after the append. So the commit
  index is as the claim says whenever \<open>leaderCommit\<close> is at most the index of the last
  entry of the message. A message of \<^verbatim>\<open>sendAppendEntries\<close> carries the sender's log from
  \<open>nextIndex\<close> to its end and the sender's commit index: source and claim differ only for
  a message from a Leader whose commit index is beyond its own log.
\<close>

lemma length_specAppend:
  assumes "start \<le> length lg"
  shows "start + length es \<le> length (specAppend lg start es)"
proof -
  have "agreeing lg start es \<le> length (zip (drop start lg) es)"
    unfolding agreeing_def by (rule length_takeWhile_le)
  then have a: "agreeing lg start es \<le> length lg - start" "agreeing lg start es \<le> length es"
    by simp_all
  show ?thesis
  proof (cases "agreeing lg start es = length es")
    case True
    with a assms show ?thesis by (simp add: specAppend_def)
  next
    case False
    with a assms show ?thesis by (auto simp: specAppend_def min_def)
  qed
qed

lemma handleAppendEntries_commit_within_message:
  assumes t: "currentTerm (state n) \<le> mterm"
    and c: "prevLogIndex = - 1 \<or>
            (\<exists>e. getEntry (state n) prevLogIndex = Some e \<and> entryTerm e = prevLogTerm)"
    and w: "leaderCommit \<le> prevLogIndex + int (length entries)"
  shows "\<exists>n' effects.
           handleAppendEntries n mterm leaderId prevLogIndex prevLogTerm entries leaderCommit senderId
             = Inr (n', effects)
           \<and> commitIndex n' =
               (if leaderCommit > commitIndex n
                then min leaderCommit (prevLogIndex + int (length entries)) else commitIndex n)"
proof -
  from handleAppendEntries_acceptance [OF t c, of leaderId entries leaderCommit senderId]
  obtain n' applied where
    h: "handleAppendEntries n mterm leaderId prevLogIndex prevLogTerm entries leaderCommit senderId
          = Inr (n', applied @ [Send senderId
                   (APPEND_ENTRIES_RESPONSE mterm True (prevLogIndex + int (length entries)))])"
    and l: "log (state n') = specAppend (log (state n)) (nat (prevLogIndex + 1)) entries"
    and ci: "commitIndex n' =
               (if leaderCommit > commitIndex n
                then min leaderCommit (getLastLogIndex (state n')) else commitIndex n)"
    by blast
  have s: "nat (prevLogIndex + 1) \<le> length (log (state n))" and p: "0 \<le> prevLogIndex + 1"
    using c by (auto simp: getEntry_def split: if_splits)
  from length_specAppend [OF s, of entries] l p
  have "prevLogIndex + int (length entries) \<le> getLastLogIndex (state n')"
    by (simp add: getLastLogIndex_def)
  with w ci have "commitIndex n' =
               (if leaderCommit > commitIndex n
                then min leaderCommit (prevLogIndex + int (length entries)) else commitIndex n)"
    by simp
  with h show ?thesis by blast
qed

lemma sendAppendEntries_message:
  assumes "sendAppendEntries n followerId = Inr r" and "map_of (nextIndex n) followerId = Some ni"
    and "0 \<le> ni"
  shows "\<exists>prevLogTerm.
           snd r = [Send followerId (APPEND_ENTRIES (currentTerm (state n)) (nodeId n) (ni - 1)
                      prevLogTerm (drop (nat ni) (log (state n))) (commitIndex n))]
           \<and> (ni - 1) + int (length (drop (nat ni) (log (state n)))) = getLastLogIndex (state n)"
proof (cases "ni = 0")
  case True
  with assms show ?thesis
    by (auto simp: sendAppendEntries_def Let_def sliceFrom_def getLastLogIndex_def)
next
  case False
  with assms have "0 \<le> ni - 1" by simp
  with assms obtain e where "getEntry (state n) (ni - 1) = Some e"
    by (auto simp: sendAppendEntries_def Let_def split: option.splits)
  then have "ni - 1 < int (length (log (state n)))"
    by (auto simp: getEntry_def split: if_splits)
  with assms \<open>0 \<le> ni - 1\<close> show ?thesis
    by (auto simp: sendAppendEntries_def Let_def sliceFrom_def getLastLogIndex_def split: option.splits)
qed

section \<open>The peers of a Leader\<close>

text \<open>
  \<^verbatim>\<open>becomeLeader\<close> gives \<open>matchIndex\<close> one entry for every other node of the cluster,
  so the count in \<open>updateCommitIndex\<close> is over all nodes.
\<close>

lemma initLeaderState_peers:
  "distinct (map fst (matchIndex n)) \<Longrightarrow>
     distinct (map fst (matchIndex (initLeaderState n ids)))
     \<and> set (map fst (matchIndex (initLeaderState n ids)))
         = set (map fst (matchIndex n)) \<union> (set ids - {nodeId n})"
proof (induction n ids rule: initLeaderState.induct)
  case (1 n)
  then show ?case by simp
next
  case (2 n p ps)
  show ?case
  proof (cases "p = nodeId n")
    case True
    with 2 show ?thesis by auto
  next
    case False
    define n1 where "n1 = n\<lparr>nextIndex := AList.update p (int (length (log (state n)))) (nextIndex n),
             matchIndex := AList.update p (- 1) (matchIndex n)\<rparr>"
    have d: "distinct (map fst (matchIndex n1))"
      using "2.prems" by (simp add: n1_def distinct_update)
    have k: "set (map fst (matchIndex n1)) = insert p (set (map fst (matchIndex n)))"
      by (simp add: n1_def dom_update)
    have i: "nodeId n1 = nodeId n" by (simp add: n1_def)
    from "2.IH"(1) [OF False] d have
      "distinct (map fst (matchIndex (initLeaderState n1 ps)))
       \<and> set (map fst (matchIndex (initLeaderState n1 ps)))
           = set (map fst (matchIndex n1)) \<union> (set ps - {nodeId n1})"
      by (simp add: n1_def)
    with False k i show ?thesis
      by (auto simp: n1_def [symmetric])
  qed
qed

lemma initLeaderState_counts_all_nodes:
  assumes "matchIndex n = []" and "distinct ids" and "nodeId n \<in> set ids"
  shows "length (matchIndex (initLeaderState n ids)) + 1 = length ids"
proof -
  from assms(1) initLeaderState_peers [of n ids]
  have d: "distinct (map fst (matchIndex (initLeaderState n ids)))"
    and s: "set (map fst (matchIndex (initLeaderState n ids))) = set ids - {nodeId n}"
    by simp_all
  from d have "length (matchIndex (initLeaderState n ids))
                 = card (set (map fst (matchIndex (initLeaderState n ids))))"
    by (metis distinct_card length_map)
  also have "\<dots> = card (set ids) - 1"
    using s assms(3) by simp
  also have "card (set ids) = length ids"
    using assms(2) by (simp add: distinct_card)
  finally show ?thesis
    using assms(3) by (cases ids) auto
qed

end
